theory Spec2Isabelle
  imports Main "HOL-Library.Word"
begin

unbundle bit_operations_syntax

section \<open>Room and peer registry (server/main.go)\<close>

text \<open>
  A \<open>*Peer\<close> is a Go pointer. Only its identity matters to the registry, so a pointer is
  modelled as an optional address: \<open>None\<close> is \<open>nil\<close>, \<open>Some a\<close> is the peer allocated at
  address \<open>a\<close>. Pointer comparison \<open>r.PeerA == peer\<close> is equality of addresses.
\<close>

type_synonym peer_ptr = "nat option"

text \<open>
  \<open>type Room struct { ID string; PeerA *Peer; PeerB *Peer; mutex sync.Mutex }\<close>.
  Every method of \<open>Room\<close> holds the mutex for its whole body, so each call is one atomic
  step on the room's fields; the mutex itself carries no data.
\<close>

record Room =
  ID :: string
  PeerA :: peer_ptr
  PeerB :: peer_ptr

text \<open>
  \<open>type RoomManager struct { rooms map[string]*Room; ... }\<close>. The map holds a pointer to
  each room, a room is stored under its own \<open>ID\<close> and an entry is never replaced or
  deleted, so the room a pointer designates is the room found under that identifier.
\<close>

record RoomManager =
  rooms :: "string \<rightharpoonup> Room"

definition getOrCreateRoom :: "RoomManager \<Rightarrow> string \<Rightarrow> RoomManager \<times> Room" where
  "getOrCreateRoom rm roomID =
     (case rooms rm roomID of
        Some room \<Rightarrow> (rm, room)
      | None \<Rightarrow>
          (let room = \<lparr>ID = roomID, PeerA = None, PeerB = None\<rparr>
           in (rm\<lparr>rooms := (rooms rm)(roomID \<mapsto> room)\<rparr>, room)))"

text \<open>\<open>func (r *Room) addPeer(peer *Peer) *Peer\<close>: the room after the call and the result.\<close>

definition addPeer :: "Room \<Rightarrow> peer_ptr \<Rightarrow> Room \<times> peer_ptr" where
  "addPeer r peer =
     (if PeerA r = None then (r\<lparr>PeerA := peer\<rparr>, None)
      else if PeerB r = None then (r\<lparr>PeerB := peer\<rparr>, PeerA r)
      else (r, None))"

text \<open>\<open>func (r *Room) removePeer(peer *Peer)\<close>: the room after the call.\<close>

definition removePeer :: "Room \<Rightarrow> peer_ptr \<Rightarrow> Room" where
  "removePeer r peer =
     (if PeerA r = peer then r\<lparr>PeerA := None\<rparr>
      else if PeerB r = peer then r\<lparr>PeerB := None\<rparr>
      else r)"

text \<open>The peers a room holds: the non-nil occupants of its two slots.\<close>

definition occupants :: "Room \<Rightarrow> nat set" where
  "occupants r = set_option (PeerA r) \<union> set_option (PeerB r)"

section \<open>Signaling handler (server/main.go)\<close>

text \<open>
  The WebRTC stack (pion) is an external collaborator. Each of its calls that the handler
  checks either succeeds or returns an error; the outcomes of the calls made while one
  request is served are the fields below (\<open>None\<close> is a nil error, \<open>Some msg\<close> an
  error whose text is \<open>msg\<close>). \<open>LocalDescription_SDP\<close> is the answer the stack produces.
\<close>

record webrtc_results =
  RegisterCodec_err :: "string option"
  NewPeerConnection_err :: "string option"
  NewTrackLocalStaticRTP_err :: "string option"
  AddTrack_err :: "string option"
  SetRemoteDescription_err :: "string option"
  CreateAnswer_err :: "string option"
  SetLocalDescription_err :: "string option"
  LocalDescription_SDP :: string

text \<open>
  The request as the handler reads it: the method, the \<open>room\<close> query parameter (empty
  when absent) and the result of \<open>io.ReadAll(req.Body)\<close> (\<open>None\<close> when the read fails).
\<close>

record Request =
  Method :: string
  room_query :: string
  Body :: "string option"

text \<open>
  What the client receives: the status code, the \<open>Location\<close> header and the body. A
  handler that returns without writing sends status 200 and an empty body; a handler
  that panics sends no response.
\<close>

datatype response = Response nat "string option" string | Panicked

text \<open>
  The process state the handler touches: the global \<open>roomManager\<close>, the relay directions
  installed by \<open>connectPeers\<close> (source, destination), and the next free address, from
  which \<open>&Peer{...}\<close> allocates.
\<close>

record Server =
  roomManager :: RoomManager
  relays :: "(peer_ptr \<times> peer_ptr) list"
  next_peer :: nat

definition http_Error :: "string \<Rightarrow> nat \<Rightarrow> response" where
  "http_Error msg code = Response code None (msg @ [CHR 0x0A])"

text \<open>\<open>func writeAnswer(res, peerConnection, offer, path)\<close>.\<close>

definition writeAnswer :: "webrtc_results \<Rightarrow> string \<Rightarrow> response" where
  "writeAnswer w path =
     (case SetRemoteDescription_err w of
        Some err \<Rightarrow> http_Error err 500
      | None \<Rightarrow>
     (case CreateAnswer_err w of
        Some err \<Rightarrow> http_Error err 500
      | None \<Rightarrow>
     (case SetLocalDescription_err w of
        Some err \<Rightarrow> http_Error err 500
      | None \<Rightarrow> Response 201 (Some path) (LocalDescription_SDP w))))"

text \<open>
  \<open>func whipHandler(res, req)\<close>, in the order of the source: the pre-flight return, the
  room parameter, the body, the media engine, the peer connection, the track and its
  sender, then the registration of the peer (\<open>getOrCreateRoom\<close>, \<open>addPeer\<close>, and
  \<open>connectPeers\<close> in both directions when a partner is returned), and last
  \<open>writeAnswer\<close>, which negotiates the session. The variant of the server without the
  per-request media engine is the same function with \<open>RegisterCodec_err = None\<close>.
\<close>

definition whipHandler :: "Server \<Rightarrow> Request \<Rightarrow> webrtc_results \<Rightarrow> Server \<times> response" where
  "whipHandler srv req w =
     (if Method req = ''OPTIONS'' then (srv, Response 200 None [])
      else if room_query req = [] then (srv, http_Error ''room parameter is required'' 400)
      else
     (case Body req of
        None \<Rightarrow> (srv, Panicked)
      | Some offer \<Rightarrow>
     (case RegisterCodec_err w of
        Some err \<Rightarrow> (srv, http_Error err 500)
      | None \<Rightarrow>
     (case NewPeerConnection_err w of
        Some err \<Rightarrow> (srv, http_Error err 500)
      | None \<Rightarrow>
     (case NewTrackLocalStaticRTP_err w of
        Some err \<Rightarrow> (srv, http_Error err 500)
      | None \<Rightarrow>
     (case AddTrack_err w of
        Some err \<Rightarrow> (srv, http_Error err 500)
      | None \<Rightarrow>
          (let roomID = room_query req;
               peer = Some (next_peer srv);
               (rm, room) = getOrCreateRoom (roomManager srv) roomID;
               (room', otherPeer) = addPeer room peer;
               rm' = rm\<lparr>rooms := (rooms rm)(roomID \<mapsto> room')\<rparr>;
               relays' = (if otherPeer \<noteq> None
                          then relays srv @ [(peer, otherPeer), (otherPeer, peer)]
                          else relays srv)
           in (\<lparr>roomManager = rm', relays = relays', next_peer = next_peer srv + 1\<rparr>,
               writeAnswer w ''/whip''))))))))"

section \<open>RTP packets and tracks (pion/rtp, pion/webrtc)\<close>

type_synonym byte = "8 word"

text \<open>\<open>rtp.Header\<close> and \<open>rtp.Packet\<close>, with the fields the repository reads or sets.\<close>

record rtp_Header =
  Version :: byte
  Padding :: bool
  Extension :: bool
  Marker :: bool
  PayloadType :: byte
  SequenceNumber :: "16 word"
  Timestamp :: "32 word"
  SSRC :: "32 word"
  CSRC :: "32 word list"
  ExtensionProfile :: "16 word"
  Extensions :: "(byte \<times> byte list) list"

record rtp_Packet =
  Header :: rtp_Header
  Payload :: "byte list"

datatype RTPCodecType = RTPCodecTypeAudio | RTPCodecTypeVideo

datatype io_error = EOF | ErrUnexpectedEOF | ErrClosedPipe | ErrOther

text \<open>
  A local track, as its writer sees it: the packets handed to \<open>WriteRTP\<close> that were
  accepted, in order, and whether the write attempted after \<open>k\<close> accepted packets fails
  (the transport's behaviour, which the repository does not control).
\<close>

record Track =
  written :: "rtp_Packet list"
  wfail :: "nat \<Rightarrow> bool"

definition WriteRTP :: "Track \<Rightarrow> rtp_Packet \<Rightarrow> io_error + Track" where
  "WriteRTP t p =
     (if wfail t (length (written t)) then Inl ErrOther
      else Inr (t\<lparr>written := written t @ [p]\<rparr>))"

section \<open>Relay engine (connectPeers)\<close>

text \<open>
  The forwarding goroutine that \<open>connectPeers\<close> starts for a remote track of the source
  peer. Its input is the sequence of results of \<open>track.ReadRTP()\<close>; the loop ends at the
  first read error, at the first failed write, or waits for ever in \<open>ReadRTP\<close> once the
  results are used up. The result is the destination peer's \<open>AudioTrack\<close>.
  This is server/main.go (lines 224 to 246): the extensions are removed from the packet
  that was read, and the packet is written when the track is an audio track.
\<close>

fun forward :: "RTPCodecType \<Rightarrow> (io_error + rtp_Packet) list \<Rightarrow> Track \<Rightarrow> Track" where
  "forward kind [] dst = dst"
| "forward kind (Inl err # rest) dst = dst"
| "forward kind (Inr pkt # rest) dst =
     (let pkt = pkt\<lparr>Header := (Header pkt)\<lparr>Extension := False, Extensions := []\<rparr>\<rparr>
      in if kind = RTPCodecTypeAudio
         then (case WriteRTP dst pkt of
                 Inl err \<Rightarrow> dst
               | Inr dst' \<Rightarrow> forward kind rest dst')
         else forward kind rest dst)"

text \<open>
  The same goroutine in the second variant of the server (src/unnamed/part_001, lines
  229 to 267): packets of another kind and packets with an empty payload are passed
  over, and a new packet is built from the fields it names.
\<close>

fun forward_v2 :: "RTPCodecType \<Rightarrow> (io_error + rtp_Packet) list \<Rightarrow> Track \<Rightarrow> Track" where
  "forward_v2 kind [] dst = dst"
| "forward_v2 kind (Inl err # rest) dst = dst"
| "forward_v2 kind (Inr pkt # rest) dst =
     (if kind \<noteq> RTPCodecTypeAudio then forward_v2 kind rest dst
      else if length (Payload pkt) = 0 then forward_v2 kind rest dst
      else
        (let newPkt =
               \<lparr>Header =
                  \<lparr>Version = 2, Padding = False, Extension = False,
                   Marker = Marker (Header pkt),
                   PayloadType = PayloadType (Header pkt),
                   SequenceNumber = SequenceNumber (Header pkt),
                   Timestamp = Timestamp (Header pkt),
                   SSRC = SSRC (Header pkt),
                   CSRC = [], ExtensionProfile = 0, Extensions = []\<rparr>,
                Payload = Payload pkt\<rparr>
         in case WriteRTP dst newPkt of
              Inl err \<Rightarrow> dst
            | Inr dst' \<Rightarrow> forward_v2 kind rest dst'))"

section \<open>Audio container codec: the encoder (client/main.go, lines 1286 to 1432)\<close>

text \<open>Go strings are byte strings; \<open>bytes_of\<close> gives the bytes of a literal.\<close>

definition bytes_of :: "string \<Rightarrow> byte list" where
  "bytes_of str = map (\<lambda>c. of_nat (of_char c)) str"

text \<open>\<open>binary.LittleEndian\<close>: writing and reading fixed-width integers.\<close>

definition le16 :: "16 word \<Rightarrow> byte list" where
  "le16 v = [ucast v, ucast (drop_bit 8 v)]"

definition le32 :: "32 word \<Rightarrow> byte list" where
  "le32 v = [ucast v, ucast (drop_bit 8 v), ucast (drop_bit 16 v), ucast (drop_bit 24 v)]"

definition le64 :: "64 word \<Rightarrow> byte list" where
  "le64 v = [ucast v, ucast (drop_bit 8 v), ucast (drop_bit 16 v), ucast (drop_bit 24 v),
             ucast (drop_bit 32 v), ucast (drop_bit 40 v), ucast (drop_bit 48 v),
             ucast (drop_bit 56 v)]"

definition Uint32 :: "byte list \<Rightarrow> 32 word" where
  "Uint32 b = ucast (b ! 0) OR push_bit 8 (ucast (b ! 1)) OR push_bit 16 (ucast (b ! 2)) OR
              push_bit 24 (ucast (b ! 3))"

definition Uint64 :: "byte list \<Rightarrow> 64 word" where
  "Uint64 b = ucast (b ! 0) OR push_bit 8 (ucast (b ! 1)) OR push_bit 16 (ucast (b ! 2)) OR
              push_bit 24 (ucast (b ! 3)) OR push_bit 32 (ucast (b ! 4)) OR
              push_bit 40 (ucast (b ! 5)) OR push_bit 48 (ucast (b ! 6)) OR
              push_bit 56 (ucast (b ! 7))"

text \<open>\<open>var crc32Table = [256]uint32{...}\<close>, as the source lists it.\<close>

definition crc32Table :: "32 word list" where
  "crc32Table = [
      0x00000000, 0x04C11DB7, 0x09823B6E, 0x0D4326D9,
      0x130476DC, 0x17C56B6B, 0x1A864DB2, 0x1E475005,
      0x2608EDB8, 0x22C9F00F, 0x2F8AD6D6, 0x2B4BCB61,
      0x350C9B64, 0x31CD86D3, 0x3C8EA00A, 0x384FBDBD,
      0x4C11DB70, 0x48D0C6C7, 0x4593E01E, 0x4152FDA9,
      0x5F15ADAC, 0x5BD4B01B, 0x569796C2, 0x52568B75,
      0x6A1936C8, 0x6ED82B7F, 0x639B0DA6, 0x675A1011,
      0x791D4014, 0x7DDC5DA3, 0x709F7B7A, 0x745E66CD,
      0x9823B6E0, 0x9CE2AB57, 0x91A18D8E, 0x95609039,
      0x8B27C03C, 0x8FE6DD8B, 0x82A5FB52, 0x8664E6E5,
      0xBE2B5B58, 0xBAEA46EF, 0xB7A96036, 0xB3687D81,
      0xAD2F2D84, 0xA9EE3033, 0xA4AD16EA, 0xA06C0B5D,
      0xD4326D90, 0xD0F37027, 0xDDB056FE, 0xD9714B49,
      0xC7361B4C, 0xC3F706FB, 0xCEB42022, 0xCA753D95,
      0xF23A8028, 0xF6FB9D9F, 0xFBB8BB46, 0xFF79A6F1,
      0xE13EF6F4, 0xE5FFEB43, 0xE8BCCD9A, 0xEC7DD02D,
      0x34867077, 0x30476DC0, 0x3D044B19, 0x39C556AE,
      0x278206AB, 0x23431B1C, 0x2E003DC5, 0x2AC12072,
      0x128E9DCF, 0x164F8078, 0x1B0CA6A1, 0x1FCDBB16,
      0x018AEB13, 0x054BF6A4, 0x0808D07D, 0x0CC9CDCA,
      0x7897AB07, 0x7C56B6B0, 0x71159069, 0x75D48DDE,
      0x6B93DDDB, 0x6F52C06C, 0x6211E6B5, 0x66D0FB02,
      0x5E9F46BF, 0x5A5E5B08, 0x571D7DD1, 0x53DC6066,
      0x4D9B3063, 0x495A2DD4, 0x44190B0D, 0x40D816BA,
      0xACA5C697, 0xA864DB20, 0xA527FDF9, 0xA1E6E04E,
      0xBFA1B04B, 0xBB60ADFC, 0xB6238B25, 0xB2E29692,
      0x8AAD2B2F, 0x8E6C3698, 0x832F1041, 0x87EE0DF6,
      0x99A95DF3, 0x9D684044, 0x902B669D, 0x94EA7B2A,
      0xE0B41DE7, 0xE4750050, 0xE9362689, 0xEDF73B3E,
      0xF3B06B3B, 0xF771768C, 0xFA325055, 0xFEF34DE2,
      0xC6BCF05F, 0xC27DEDE8, 0xCF3ECB31, 0xCBFFD686,
      0xD5B88683, 0xD1799B34, 0xDC3ABDED, 0xD8FBA05A,
      0x690CE0EE, 0x6DCDFD59, 0x608EDB80, 0x644FC637,
      0x7A089632, 0x7EC98B85, 0x738AAD5C, 0x774BB0EB,
      0x4F040D56, 0x4BC510E1, 0x46863638, 0x42472B8F,
      0x5C007B8A, 0x58C1663D, 0x558240E4, 0x51435D53,
      0x251D3B9E, 0x21DC2629, 0x2C9F00F0, 0x285E1D47,
      0x36194D42, 0x32D850F5, 0x3F9B762C, 0x3B5A6B9B,
      0x0315D626, 0x07D4CB91, 0x0A97ED48, 0x0E56F0FF,
      0x1011A0FA, 0x14D0BD4D, 0x19939B94, 0x1D528623,
      0xF12F560E, 0xF5EE4BB9, 0xF8AD6D60, 0xFC6C70D7,
      0xE22B20D2, 0xE6EA3D65, 0xEBA91BBC, 0xEF68060B,
      0xD727BBB6, 0xD3E6A601, 0xDEA580D8, 0xDA649D6F,
      0xC423CD6A, 0xC0E2D0DD, 0xCDA1F604, 0xC960EBB3,
      0xBD3E8D7E, 0xB9FF90C9, 0xB4BCB610, 0xB07DABA7,
      0xAE3AFBA2, 0xAAFBE615, 0xA7B8C0CC, 0xA379DD7B,
      0x9B3660C6, 0x9FF77D71, 0x92B45BA8, 0x9675461F,
      0x8832161A, 0x8CF30BAD, 0x81B02D74, 0x857130C3,
      0x5D8A9099, 0x594B8D2E, 0x5408ABF7, 0x50C9B640,
      0x4E8EE645, 0x4A4FFBF2, 0x470CDD2B, 0x43CDC09C,
      0x7B827D21, 0x7F436096, 0x7200464F, 0x76C15BF8,
      0x68860BFD, 0x6C47164A, 0x61043093, 0x65C52D24,
      0x119B4BE9, 0x155A565E, 0x18197087, 0x1CD86D30,
      0x029F3D35, 0x065E2082, 0x0B1D065B, 0x0FDC1BEC,
      0x3793A651, 0x3352BBE6, 0x3E119D3F, 0x3AD08088,
      0x2497D08D, 0x2056CD3A, 0x2D15EBE3, 0x29D4F654,
      0xC5A92679, 0xC1683BCE, 0xCC2B1D17, 0xC8EA00A0,
      0xD6AD50A5, 0xD26C4D12, 0xDF2F6BCB, 0xDBEE767C,
      0xE3A1CBC1, 0xE760D676, 0xEA23F0AF, 0xEEE2ED18,
      0xF0A5BD1D, 0xF464A0AA, 0xF9278673, 0xFDE69BC4,
      0x89B8FD09, 0x8D79E0BE, 0x803AC667, 0x84FBDBD0,
      0x9ABC8BD5, 0x9E7D9662, 0x933EB0BB, 0x97FFAD0C,
      0xAFB010B1, 0xAB710D06, 0xA6322BDF, 0xA2F33668,
      0xBCB4666D, 0xB8757BDA, 0xB5365D03, 0xB1F740B4]"

text \<open>
  \<open>func crc32Ogg(data []byte) uint32\<close>. The index \<open>byte(crc>>24)^b\<close> is a byte, so it
  is always inside the 256 entries of the table.
\<close>

definition crc32Ogg_step :: "byte \<Rightarrow> 32 word \<Rightarrow> 32 word" where
  "crc32Ogg_step b crc =
     push_bit 8 crc XOR crc32Table ! unat ((ucast (drop_bit 24 crc) :: byte) XOR b)"

definition crc32Ogg :: "byte list \<Rightarrow> 32 word" where
  "crc32Ogg data = fold crc32Ogg_step data 0"

text \<open>
  The closure \<open>writeOggPage\<close> of \<open>createOggOpusFile\<close>. It appends to \<open>buf\<close> and
  increments \<open>pageSequence\<close>, both captured from the enclosing function, so the model
  takes and returns the pair. \<open>serialNumber\<close> is \<open>uint32(time.Now().Unix())\<close>, fixed
  for one call of the encoder and a parameter here. \<open>byte(len(data))\<close> keeps the low
  eight bits of the length. The checksum is computed over the page as written with a
  zero checksum field and then stored over that field.
\<close>

definition writeOggPage ::
  "32 word \<Rightarrow> byte list \<times> 32 word \<Rightarrow> byte list \<Rightarrow> byte \<Rightarrow> 64 word \<Rightarrow> bool \<Rightarrow>
   byte list \<times> 32 word" where
  "writeOggPage serialNumber st data hType granule isFirst =
     (let (buf, pageSequence) = st;
          buf = buf @ bytes_of ''OggS'';
          buf = buf @ [0];
          buf = buf @ [hType];
          buf = buf @ le64 granule;
          buf = buf @ le32 serialNumber;
          buf = buf @ le32 pageSequence;
          pageSequence = pageSequence + 1;
          checksumPos = length buf;
          buf = buf @ le32 0;
          buf = buf @ [1];
          buf = buf @ [of_nat (length data)];
          buf = buf @ data;
          pageData = drop (checksumPos - 22) buf;
          checksum = crc32Ogg pageData;
          buf = take checksumPos buf @ le32 checksum @ drop (checksumPos + 4) buf
      in (buf, pageSequence))"

definition opusHead :: "byte list" where
  "opusHead = bytes_of ''OpusHead'' @ [1] @ [2] @ le16 0 @ le32 48000 @ le16 0 @ [0]"

definition opusTags :: "byte list" where
  "opusTags = bytes_of ''OpusTags'' @ le32 (of_nat (length ''Go WebRTC Client'')) @
              bytes_of ''Go WebRTC Client'' @ le32 0"

text \<open>
  The loop \<open>for i, packet := range opusPackets\<close> of \<open>createOggOpusFile\<close>: \<open>n\<close> is
  \<open>len(opusPackets)\<close>, \<open>i\<close> the index of the first remaining packet.
\<close>

fun writePackets ::
  "32 word \<Rightarrow> nat \<Rightarrow> nat \<Rightarrow> byte list list \<Rightarrow> 64 word \<Rightarrow> byte list \<times> 32 word \<Rightarrow>
   byte list \<times> 32 word" where
  "writePackets serialNumber n i [] granulePosition st = st"
| "writePackets serialNumber n i (packet # rest) granulePosition st =
     (if length packet = 0 \<or> length packet > 255
      then writePackets serialNumber n (i + 1) rest granulePosition st
      else
        (let granulePosition = granulePosition + 960;
             hType = (if int i = int n - 1 then 0x04 else 0x00)
         in writePackets serialNumber n (i + 1) rest granulePosition
              (writeOggPage serialNumber st packet hType granulePosition False)))"

text \<open>\<open>func createOggOpusFile(opusPackets [][]byte) []byte\<close> (the hand-written encoder).\<close>

definition createOggOpusFile :: "32 word \<Rightarrow> byte list list \<Rightarrow> byte list" where
  "createOggOpusFile serialNumber opusPackets =
     (let st = ([], 0);
          st = writeOggPage serialNumber st opusHead 0x02 0 True;
          st = writeOggPage serialNumber st opusTags 0x00 0 False;
          st = writePackets serialNumber (length opusPackets) 0 opusPackets 0 st
      in fst st)"

text \<open>
  The bytes of one page as \<open>writeOggPage\<close> lays them out, for a given value of the
  checksum field, and the page with the checksum that \<open>crc32Ogg\<close> gives for the page
  with a zero checksum field. These two name the layout for the statements below; the
  encoder itself is \<open>writeOggPage\<close>.
\<close>

definition pageBytes ::
  "byte \<Rightarrow> 64 word \<Rightarrow> 32 word \<Rightarrow> 32 word \<Rightarrow> 32 word \<Rightarrow> byte list \<Rightarrow> byte list" where
  "pageBytes hType granule serialNumber pageSequence checksum data =
     bytes_of ''OggS'' @ [0, hType] @ le64 granule @ le32 serialNumber @ le32 pageSequence @
     le32 checksum @ [1, of_nat (length data)] @ data"

definition ogg_page :: "byte \<Rightarrow> 64 word \<Rightarrow> 32 word \<Rightarrow> 32 word \<Rightarrow> byte list \<Rightarrow> byte list" where
  "ogg_page hType granule serialNumber pageSequence data =
     pageBytes hType granule serialNumber pageSequence
       (crc32Ogg (pageBytes hType granule serialNumber pageSequence 0 data)) data"

section \<open>Audio container codec: the page reader (pion oggreader)\<close>

text \<open>
  The decoder of the repository reads pages with the package
  \<open>github.com/pion/webrtc/v4/pkg/media/oggreader\<close>, a dependency whose source is not
  part of the repository. The definitions of this section follow that package's page
  parser: \<open>ParseNextPage\<close> reads the 27 bytes of a page header, the segment table and
  the payload (the sum of the segment sizes) with \<open>io.ReadFull\<close>, and compares the
  stored checksum with the one it computes over the page with a zero checksum field;
  \<open>NewWith\<close> reads the first page and requires it to be the identification header.
  The stream is the list of bytes not yet read.
\<close>

datatype ogg_error =
    IO io_error
  | errChecksumMismatch
  | errBadIDPageSignature
  | errBadIDPageType
  | errBadIDPageLength
  | errBadIDPagePayloadSignature

text \<open>
  \<open>io.ReadFull\<close> on a byte reader: nothing to read is no error; at the end of the
  stream it is \<open>io.EOF\<close>; a stream that ends inside the buffer is
  \<open>io.ErrUnexpectedEOF\<close>.
\<close>

definition ReadFull :: "nat \<Rightarrow> byte list \<Rightarrow> io_error + (byte list \<times> byte list)" where
  "ReadFull n stream =
     (if n = 0 then Inr ([], stream)
      else if stream = [] then Inl EOF
      else if length stream < n then Inl ErrUnexpectedEOF
      else Inr (take n stream, drop n stream))"

record OggPageHeader =
  GranulePosition :: "64 word"
  sig :: "byte list"
  version :: byte
  headerType :: byte
  serial :: "32 word"
  index :: "32 word"
  segmentsCount :: byte

text \<open>
  The package builds its checksum table when a reader is created: entry \<open>i\<close> is
  \<open>i << 24\<close> after eight steps, each of which shifts left by one bit and, when the top
  bit was set, combines the result with the polynomial \<open>0x04c11db7\<close>.
\<close>

definition checksum_shift :: "32 word \<Rightarrow> 32 word" where
  "checksum_shift r =
     (if r AND 0x80000000 \<noteq> 0 then push_bit 1 r XOR 0x04C11DB7 else push_bit 1 r)"

definition checksumTableEntry :: "nat \<Rightarrow> 32 word" where
  "checksumTableEntry i = (checksum_shift ^^ 8) (push_bit 24 (of_nat i))"

definition generateChecksumTable :: "32 word list" where
  "generateChecksumTable = map checksumTableEntry [0..<256]"

definition updateChecksum :: "byte \<Rightarrow> 32 word \<Rightarrow> 32 word" where
  "updateChecksum v checksum =
     push_bit 8 checksum XOR
     generateChecksumTable ! unat ((ucast (drop_bit 24 checksum) :: byte) XOR v)"

definition ParseNextPage ::
  "byte list \<Rightarrow> ogg_error + (byte list \<times> OggPageHeader \<times> byte list)" where
  "ParseNextPage stream =
     (case ReadFull 27 stream of
        Inl err \<Rightarrow> Inl (IO err)
      | Inr (h, stream) \<Rightarrow>
          (let pageHeader =
                 \<lparr>GranulePosition = Uint64 (take 8 (drop 6 h)),
                  sig = take 4 h,
                  version = h ! 4,
                  headerType = h ! 5,
                  serial = Uint32 (take 4 (drop 14 h)),
                  index = Uint32 (take 4 (drop 18 h)),
                  segmentsCount = h ! 26\<rparr>
           in case ReadFull (unat (segmentsCount pageHeader)) stream of
                Inl err \<Rightarrow> Inl (IO err)
              | Inr (sizeBuffer, stream) \<Rightarrow>
                  (let payloadSize = sum_list (map unat sizeBuffer)
                   in case ReadFull payloadSize stream of
                        Inl err \<Rightarrow> Inl (IO err)
                      | Inr (payload, stream) \<Rightarrow>
                          (let checksum =
                                 fold updateChecksum
                                   (take 22 h @ [0, 0, 0, 0] @ drop 26 h @ sizeBuffer @ payload) 0
                           in if Uint32 (take 4 (drop 22 h)) \<noteq> checksum
                              then Inl errChecksumMismatch
                              else Inr (payload, pageHeader, stream)))))"

text \<open>
  \<open>NewWith\<close>: the reader positioned after the identification page, or the error of
  reading or checking that page. The header it also returns is discarded by both callers.
\<close>

definition NewWith :: "byte list \<Rightarrow> ogg_error + byte list" where
  "NewWith stream =
     (case ParseNextPage stream of
        Inl err \<Rightarrow> Inl err
      | Inr (segments, pageHeader, stream) \<Rightarrow>
          if sig pageHeader \<noteq> bytes_of ''OggS'' then Inl errBadIDPageSignature
          else if headerType pageHeader \<noteq> 0x02 then Inl errBadIDPageType
          else if length segments \<noteq> 19 then Inl errBadIDPageLength
          else if take 8 segments \<noteq> bytes_of ''OpusHead'' then Inl errBadIDPagePayloadSignature
          else Inr stream)"

lemma ReadFull_length:
  "ReadFull n stream = Inr (b, rest) \<Longrightarrow> length stream = n + length rest \<and> length b = n"
  by (auto simp: ReadFull_def split: if_splits)

lemma ParseNextPage_shorter:
  "ParseNextPage stream = Inr (payload, hdr, rest) \<Longrightarrow> length rest < length stream"
  unfolding ParseNextPage_def Let_def
  by (auto split: sum.splits prod.splits if_splits dest!: ReadFull_length)

text \<open>
  The pages of a container as the reader sees them: the payload and header of every page
  that \<open>ParseNextPage\<close> returns, in order, and the error that ends the reading
  (\<open>io.EOF\<close> for a container that ends after a whole page). They are used to state
  what the encoder produces.
\<close>

function read_pages :: "byte list \<Rightarrow> (byte list \<times> OggPageHeader) list" where
  "read_pages stream =
     (case ParseNextPage stream of
        Inl err \<Rightarrow> []
      | Inr (payload, hdr, stream') \<Rightarrow> (payload, hdr) # read_pages stream')"
  by pat_completeness auto
termination
  by (relation "measure length") (auto dest: ParseNextPage_shorter)

function read_end :: "byte list \<Rightarrow> ogg_error" where
  "read_end stream =
     (case ParseNextPage stream of
        Inl err \<Rightarrow> err
      | Inr (payload, hdr, stream') \<Rightarrow> read_end stream')"
  by pat_completeness auto
termination
  by (relation "measure length") (auto dest: ParseNextPage_shorter)

text \<open>
  The pages that the loop of \<open>createOggOpusFile\<close> writes, as payload and header: one
  for each packet of 1 to 255 bytes. \<open>page_bytes\<close> gives the bytes of such a page.
\<close>

fun audio_pages ::
  "32 word \<Rightarrow> nat \<Rightarrow> nat \<Rightarrow> byte list list \<Rightarrow> 64 word \<Rightarrow> 32 word \<Rightarrow>
   (byte list \<times> OggPageHeader) list" where
  "audio_pages serialNumber n i [] granulePosition pageSequence = []"
| "audio_pages serialNumber n i (packet # rest) granulePosition pageSequence =
     (if length packet = 0 \<or> length packet > 255
      then audio_pages serialNumber n (i + 1) rest granulePosition pageSequence
      else (packet,
            \<lparr>GranulePosition = granulePosition + 960, sig = bytes_of ''OggS'', version = 0,
             headerType = (if int i = int n - 1 then 0x04 else 0x00),
             serial = serialNumber, index = pageSequence, segmentsCount = 1\<rparr>)
           # audio_pages serialNumber n (i + 1) rest (granulePosition + 960) (pageSequence + 1))"

definition page_bytes :: "byte list \<times> OggPageHeader \<Rightarrow> byte list" where
  "page_bytes p =
     ogg_page (headerType (snd p)) (GranulePosition (snd p)) (serial (snd p)) (index (snd p))
       (fst p)"

definition page_ok :: "byte list \<times> OggPageHeader \<Rightarrow> bool" where
  "page_ok p =
     (length (fst p) \<le> 255 \<and> sig (snd p) = bytes_of ''OggS'' \<and> version (snd p) = 0 \<and>
      segmentsCount (snd p) = 1)"

text \<open>
  The two header pages that \<open>createOggOpusFile\<close> writes first, and all the pages of the
  container it returns.
\<close>

definition head_page :: "32 word \<Rightarrow> byte list \<times> OggPageHeader" where
  "head_page serialNumber =
     (opusHead, \<lparr>GranulePosition = 0, sig = bytes_of ''OggS'', version = 0, headerType = 0x02,
                 serial = serialNumber, index = 0, segmentsCount = 1\<rparr>)"

definition tags_page :: "32 word \<Rightarrow> byte list \<times> OggPageHeader" where
  "tags_page serialNumber =
     (opusTags, \<lparr>GranulePosition = 0, sig = bytes_of ''OggS'', version = 0, headerType = 0x00,
                 serial = serialNumber, index = 1, segmentsCount = 1\<rparr>)"

definition container_pages :: "32 word \<Rightarrow> byte list list \<Rightarrow> (byte list \<times> OggPageHeader) list" where
  "container_pages serialNumber opusPackets =
     head_page serialNumber # tags_page serialNumber #
     audio_pages serialNumber (length opusPackets) 0 opusPackets 0 2"

section \<open>Audio container codec: the decoder (extractOpusPacketsFromOgg)\<close>

datatype extract_error = FailedToCreateReader ogg_error | ErrorReadingPage ogg_error

text \<open>
  The loop of \<open>extractOpusPacketsFromOgg\<close> in client/main.go (lines 699 to 721):
  every page that \<open>ParseNextPage\<close> returns is appended, until \<open>io.EOF\<close>; another
  error is returned wrapped.
\<close>

function extract_pages :: "byte list \<Rightarrow> byte list list \<Rightarrow> extract_error + byte list list" where
  "extract_pages reader packets =
     (case ParseNextPage reader of
        Inl err \<Rightarrow> if err = IO EOF then Inr packets else Inl (ErrorReadingPage err)
      | Inr (packet, hdr, reader') \<Rightarrow> extract_pages reader' (packets @ [packet]))"
  by pat_completeness auto
termination
  by (relation "measure (\<lambda>(reader, packets). length reader)")
     (auto dest: ParseNextPage_shorter)

definition extractOpusPacketsFromOgg :: "byte list \<Rightarrow> extract_error + byte list list" where
  "extractOpusPacketsFromOgg oggData =
     (case NewWith oggData of
        Inl err \<Rightarrow> Inl (FailedToCreateReader err)
      | Inr reader \<Rightarrow> extract_pages reader [])"

text \<open>
  The loop of the other variant of the client (src/unnamed/part_003, lines 731 to 766):
  a page with an empty payload is passed over, and so is a page whose payload begins
  with \<open>OpusHead\<close> or \<open>OpusTags\<close>.
\<close>

function extract_pages_v2 :: "byte list \<Rightarrow> byte list list \<Rightarrow> extract_error + byte list list" where
  "extract_pages_v2 reader packets =
     (case ParseNextPage reader of
        Inl err \<Rightarrow> if err = IO EOF then Inr packets else Inl (ErrorReadingPage err)
      | Inr (packet, hdr, reader') \<Rightarrow>
          if length packet > 0
          then (if length packet \<ge> 8 \<and>
                   (take 8 packet = bytes_of ''OpusHead'' \<or> take 8 packet = bytes_of ''OpusTags'')
                then extract_pages_v2 reader' packets
                else extract_pages_v2 reader' (packets @ [packet]))
          else extract_pages_v2 reader' packets)"
  by pat_completeness auto
termination
  by (relation "measure (\<lambda>(reader, packets). length reader)")
     (auto dest: ParseNextPage_shorter)

definition extractOpusPacketsFromOgg_v2 :: "byte list \<Rightarrow> extract_error + byte list list" where
  "extractOpusPacketsFromOgg_v2 oggData =
     (case NewWith oggData of
        Inl err \<Rightarrow> Inl (FailedToCreateReader err)
      | Inr reader \<Rightarrow> extract_pages_v2 reader [])"

text \<open>The payloads that the loop of the second variant keeps.\<close>

definition kept_v2 :: "byte list \<Rightarrow> bool" where
  "kept_v2 packet =
     (length packet > 0 \<and>
      \<not> (length packet \<ge> 8 \<and>
         (take 8 packet = bytes_of ''OpusHead'' \<or> take 8 packet = bytes_of ''OpusTags'')))"

section \<open>Packetizer (sendAudioToTrack)\<close>

datatype send_error = ErrorExtracting extract_error | ErrorWritingRTPPacket nat io_error

text \<open>
  The loop \<open>for i, opusPacket := range opusPackets\<close> of \<open>sendAudioToTrack\<close> in
  client/main.go (lines 723 to 762): \<open>n\<close> is \<open>len(opusPackets)\<close>, \<open>i\<close> the index of
  the first remaining frame. The result is the track after the loop and the error
  returned, if any. The pause of 20 ms after each packet has no effect on the packets
  and is left out.
\<close>

fun sendFrames ::
  "nat \<Rightarrow> nat \<Rightarrow> byte list list \<Rightarrow> 16 word \<Rightarrow> 32 word \<Rightarrow> Track \<Rightarrow> Track \<times> send_error option" where
  "sendFrames n i [] sequenceNumber timestamp track = (track, None)"
| "sendFrames n i (opusPacket # rest) sequenceNumber timestamp track =
     (let packet =
            \<lparr>Header =
               \<lparr>Version = 2, Padding = False, Extension = False,
                Marker = (int i = int n - 1),
                PayloadType = 97,
                SequenceNumber = sequenceNumber,
                Timestamp = timestamp,
                SSRC = 0,
                CSRC = [], ExtensionProfile = 0, Extensions = []\<rparr>,
             Payload = opusPacket\<rparr>
      in case WriteRTP track packet of
           Inl err \<Rightarrow> (track, Some (ErrorWritingRTPPacket i err))
         | Inr track' \<Rightarrow> sendFrames n (i + 1) rest (sequenceNumber + 1) (timestamp + 960) track')"

definition sendAudioToTrack :: "Track \<Rightarrow> byte list \<Rightarrow> Track \<times> send_error option" where
  "sendAudioToTrack track audioData =
     (case extractOpusPacketsFromOgg audioData of
        Inl err \<Rightarrow> (track, Some (ErrorExtracting err))
      | Inr opusPackets \<Rightarrow> sendFrames (length opusPackets) 0 opusPackets 0 0 track)"

text \<open>
  The other variant of the client (src/unnamed/part_003, lines 768 to 817): an empty
  frame is passed over without a sequence number, and the payload type is 96.
\<close>

fun sendFrames_v2 ::
  "nat \<Rightarrow> nat \<Rightarrow> byte list list \<Rightarrow> 16 word \<Rightarrow> 32 word \<Rightarrow> Track \<Rightarrow> Track \<times> send_error option" where
  "sendFrames_v2 n i [] sequenceNumber timestamp track = (track, None)"
| "sendFrames_v2 n i (opusPacket # rest) sequenceNumber timestamp track =
     (if length opusPacket = 0
      then sendFrames_v2 n (i + 1) rest sequenceNumber timestamp track
      else
        (let packet =
               \<lparr>Header =
                  \<lparr>Version = 2, Padding = False, Extension = False,
                   Marker = (int i = int n - 1),
                   PayloadType = 96,
                   SequenceNumber = sequenceNumber,
                   Timestamp = timestamp,
                   SSRC = 0,
                   CSRC = [], ExtensionProfile = 0, Extensions = []\<rparr>,
                Payload = opusPacket\<rparr>
         in case WriteRTP track packet of
              Inl err \<Rightarrow> (track, Some (ErrorWritingRTPPacket i err))
            | Inr track' \<Rightarrow>
                sendFrames_v2 n (i + 1) rest (sequenceNumber + 1) (timestamp + 960) track'))"

definition sendAudioToTrack_v2 :: "Track \<Rightarrow> byte list \<Rightarrow> Track \<times> send_error option" where
  "sendAudioToTrack_v2 track audioData =
     (case extractOpusPacketsFromOgg_v2 audioData of
        Inl err \<Rightarrow> (track, Some (ErrorExtracting err))
      | Inr opusPackets \<Rightarrow> sendFrames_v2 (length opusPackets) 0 opusPackets 0 0 track)"

text \<open>
  The packet that the loop of \<open>sendAudioToTrack\<close> builds for the frame at index \<open>k\<close>
  of a batch of \<open>n\<close> frames when every earlier frame was sent, with payload type \<open>pt\<close>.
\<close>

definition frame_packet :: "byte \<Rightarrow> nat \<Rightarrow> nat \<Rightarrow> byte list \<Rightarrow> rtp_Packet" where
  "frame_packet pt n k frame =
     \<lparr>Header =
        \<lparr>Version = 2, Padding = False, Extension = False,
         Marker = (int k = int n - 1),
         PayloadType = pt,
         SequenceNumber = of_nat k,
         Timestamp = 960 * of_nat k,
         SSRC = 0,
         CSRC = [], ExtensionProfile = 0, Extensions = []\<rparr>,
      Payload = frame\<rparr>"

section \<open>Registry properties\<close>

lemma card_occupants_le_2: "card (occupants r) \<le> 2"
proof -
  have a: "card (set_option (PeerA r)) \<le> 1" by (cases "PeerA r") simp_all
  have b: "card (set_option (PeerB r)) \<le> 1" by (cases "PeerB r") simp_all
  have "card (occupants r) \<le> card (set_option (PeerA r)) + card (set_option (PeerB r))"
    unfolding occupants_def by (rule card_Un_le)
  with a b show ?thesis by linarith
qed

text \<open>
  Claim C5. In a room whose two slots are both occupied, \<open>addPeer\<close> with a further peer
  leaves the room unchanged and returns no partner (the peer is not registered, and
  nothing is raised). A room never holds more than two peers: the bound holds after
  \<open>addPeer\<close>, after \<open>removePeer\<close> and for the room that \<open>getOrCreateRoom\<close> returns.
\<close>

theorem addPeer_full_room_unchanged:
  "(PeerA r \<noteq> None \<and> PeerB r \<noteq> None \<longrightarrow> addPeer r peer = (r, None)) \<and>
   card (occupants (fst (addPeer r peer))) \<le> 2 \<and>
   card (occupants (removePeer r peer)) \<le> 2 \<and>
   card (occupants (snd (getOrCreateRoom rm roomID))) \<le> 2"
  by (simp add: addPeer_def card_occupants_le_2)

theorem addPeer_full_room_unchanged_witness:
  "addPeer \<lparr>ID = ''r1'', PeerA = Some 1, PeerB = Some 2\<rparr> (Some 3) =
     (\<lparr>ID = ''r1'', PeerA = Some 1, PeerB = Some 2\<rparr>, None)"
  using addPeer_full_room_unchanged
          [of "\<lparr>ID = ''r1'', PeerA = Some 1, PeerB = Some 2\<rparr>" "Some 3"]
  by simp

text \<open>
  Claim C6. Starting from the empty room that \<open>getOrCreateRoom\<close> creates, the first
  \<open>addPeer\<close> puts its peer in slot A and returns no partner, the second puts its peer in
  slot B and returns the peer of slot A, and a third call changes nothing and returns
  no partner.
\<close>

theorem addPeer_pairs_exactly_once:
  "(let r0 = \<lparr>ID = roomID, PeerA = None, PeerB = None\<rparr>;
        (r1, o1) = addPeer r0 (Some p1);
        (r2, o2) = addPeer r1 (Some p2);
        (r3, o3) = addPeer r2 (Some p3)
    in r1 = \<lparr>ID = roomID, PeerA = Some p1, PeerB = None\<rparr> \<and> o1 = None \<and>
       r2 = \<lparr>ID = roomID, PeerA = Some p1, PeerB = Some p2\<rparr> \<and> o2 = Some p1 \<and>
       r3 = r2 \<and> o3 = None)"
  by (simp add: addPeer_def)

text \<open>
  Claim C7. \<open>removePeer\<close> compares the given pointer with slot A first and then with
  slot B. When slot A holds the peer, slot A is cleared and slot B keeps its value; when
  slot A does not hold it and slot B does, slot B is cleared and slot A keeps its value;
  when neither slot holds it, the room is unchanged.
\<close>

theorem removePeer_clears_only_matching_slot:
  "(PeerA r = Some p \<longrightarrow>
      removePeer r (Some p) = r\<lparr>PeerA := None\<rparr> \<and>
      PeerB (removePeer r (Some p)) = PeerB r) \<and>
   (PeerA r \<noteq> Some p \<and> PeerB r = Some p \<longrightarrow>
      removePeer r (Some p) = r\<lparr>PeerB := None\<rparr> \<and>
      PeerA (removePeer r (Some p)) = PeerA r) \<and>
   (PeerA r \<noteq> Some p \<and> PeerB r \<noteq> Some p \<longrightarrow> removePeer r (Some p) = r)"
  by (simp add: removePeer_def)

theorem removePeer_clears_only_matching_slot_witness:
  "removePeer \<lparr>ID = ''r1'', PeerA = Some 1, PeerB = Some 2\<rparr> (Some 1) =
     \<lparr>ID = ''r1'', PeerA = None, PeerB = Some 2\<rparr> \<and>
   removePeer \<lparr>ID = ''r1'', PeerA = Some 1, PeerB = Some 2\<rparr> (Some 2) =
     \<lparr>ID = ''r1'', PeerA = Some 1, PeerB = None\<rparr> \<and>
   removePeer \<lparr>ID = ''r1'', PeerA = Some 1, PeerB = Some 2\<rparr> (Some 3) =
     \<lparr>ID = ''r1'', PeerA = Some 1, PeerB = Some 2\<rparr>"
  using removePeer_clears_only_matching_slot
          [of "\<lparr>ID = ''r1'', PeerA = Some 1, PeerB = Some 2\<rparr>" 1]
        removePeer_clears_only_matching_slot
          [of "\<lparr>ID = ''r1'', PeerA = Some 1, PeerB = Some 2\<rparr>" 2]
        removePeer_clears_only_matching_slot
          [of "\<lparr>ID = ''r1'', PeerA = Some 1, PeerB = Some 2\<rparr>" 3]
  by simp

section \<open>Container codec properties\<close>

lemma funpow_8: "(f ^^ 8) x = f (f (f (f (f (f (f (f x)))))))"
  by (simp add: numeral_eq_Suc)

lemma map_upt_numeral:
  "map f [numeral m..<numeral n] =
     (if (numeral m :: nat) < numeral n then f (numeral m) # map f [Suc (numeral m)..<numeral n]
      else [])"
  by (simp add: upt_rec_numeral)

lemma map_upt_first:
  "map f [0..<numeral n] =
     f 0 # (if Suc 0 < numeral n then f 1 # map f [2..<numeral n] else [])"
  by (simp add: upt_conv_Cons numeral_2_eq_2 del: upt.simps)

lemma generateChecksumTable_eq: "generateChecksumTable = crc32Table"
  unfolding generateChecksumTable_def crc32Table_def map_upt_first
  by (simp add: map_upt_numeral checksumTableEntry_def funpow_8 checksum_shift_def
        del: upt.simps)

lemma updateChecksum_eq: "updateChecksum = crc32Ogg_step"
  by (intro ext) (simp add: updateChecksum_def crc32Ogg_step_def generateChecksumTable_eq)

lemma byte_of_word_bit:
  "bit (push_bit k (ucast (ucast (drop_bit k w) :: byte)) :: 'a::len word) n =
     (k \<le> n \<and> n < k + 8 \<and> bit w n)" for w :: "'a::len word"
proof (cases "k \<le> n")
  case True
  then obtain m where m: "n = k + m" using le_Suc_ex by blast
  have "bit w (k + m) \<Longrightarrow> k + m < LENGTH('a) \<and> m < LENGTH('a)"
    using bit_imp_le_length [of w "k + m"] by simp
  then show ?thesis unfolding m by (auto simp add: bit_simps)
next
  case False
  then show ?thesis by (simp add: bit_simps)
qed

lemma byte_of_word_bit0:
  "bit (ucast (ucast w :: byte) :: 'a::len word) n = (n < 8 \<and> bit w n)" for w :: "'a::len word"
  by (auto simp add: bit_simps dest: bit_imp_le_length)

lemma Uint32_le32: "Uint32 (le32 w) = w"
proof (rule bit_word_eqI)
  fix n :: nat
  assume "n < LENGTH(32)"
  then have "n < 8 \<or> (8 \<le> n \<and> n < 8 + 8) \<or> (16 \<le> n \<and> n < 16 + 8) \<or> (24 \<le> n \<and> n < 24 + 8)"
    by simp linarith
  then show "bit (Uint32 (le32 w)) n = bit w n"
    unfolding Uint32_def le32_def
    by (simp add: bit_or_iff byte_of_word_bit byte_of_word_bit0 del: bit_push_bit_iff) blast
qed

lemma Uint64_le64: "Uint64 (le64 w) = w"
proof (rule bit_word_eqI)
  fix n :: nat
  assume "n < LENGTH(64)"
  then have "n < 8 \<or> (8 \<le> n \<and> n < 8 + 8) \<or> (16 \<le> n \<and> n < 16 + 8) \<or> (24 \<le> n \<and> n < 24 + 8) \<or>
     (32 \<le> n \<and> n < 32 + 8) \<or> (40 \<le> n \<and> n < 40 + 8) \<or> (48 \<le> n \<and> n < 48 + 8) \<or> (56 \<le> n \<and> n < 56 + 8)"
    by simp linarith
  then show "bit (Uint64 (le64 w)) n = bit w n"
    unfolding Uint64_def le64_def
    by (simp add: bit_or_iff byte_of_word_bit byte_of_word_bit0 del: bit_push_bit_iff) blast
qed

lemma ReadFull_append: "length a = n \<Longrightarrow> ReadFull n (a @ rest) = Inr (a, rest)"
  by (auto simp: ReadFull_def)

lemma ParseNextPage_page:
  assumes h: "length h = 27" and seg: "h ! 26 = 1" and len: "length data \<le> 255"
    and ck: "Uint32 (take 4 (drop 22 h)) =
             crc32Ogg (take 22 h @ [0, 0, 0, 0] @ drop 26 h @ [of_nat (length data)] @ data)"
  shows "ParseNextPage (h @ [of_nat (length data)] @ data @ rest) =
         Inr (data,
              \<lparr>GranulePosition = Uint64 (take 8 (drop 6 h)), sig = take 4 h, version = h ! 4,
               headerType = h ! 5, serial = Uint32 (take 4 (drop 14 h)),
               index = Uint32 (take 4 (drop 18 h)), segmentsCount = h ! 26\<rparr>,
              rest)"
proof -
  have r1: "ReadFull 27 (h @ [of_nat (length data)] @ data @ rest) =
              Inr (h, [of_nat (length data)] @ data @ rest)"
    using h by (rule ReadFull_append)
  have r2: "ReadFull (unat (1 :: byte)) ([of_nat (length data)] @ data @ rest) =
              Inr ([of_nat (length data)], data @ rest)"
    by (simp add: ReadFull_def)
  have sz: "sum_list (map unat [of_nat (length data) :: byte]) = length data"
    using len by (simp add: unat_of_nat)
  have r3: "ReadFull (length data) (data @ rest) = Inr (data, rest)"
    by (rule ReadFull_append) simp
  show ?thesis
    unfolding ParseNextPage_def
    by (simp only: r1 sum.case prod.case Let_def OggPageHeader.simps seg r2 sz r3
          updateChecksum_eq ck crc32Ogg_def [symmetric] if_False append_assoc simp_thms)
qed


lemma length_le [simp]: "length (le16 a) = 2" "length (le32 b) = 4" "length (le64 c) = 8"
  by (simp_all add: le16_def le32_def le64_def)

lemma length_bytes_of [simp]: "length (bytes_of str) = length str"
  by (simp add: bytes_of_def)

lemma length_pageBytes: "length (pageBytes hType granule serialNumber pageSequence checksum data) = 28 + length data"
  by (simp add: pageBytes_def)

lemma writeOggPage_eq:
  "writeOggPage serialNumber (buf, pageSequence) data hType granule isFirst =
     (buf @ ogg_page hType granule serialNumber pageSequence data, pageSequence + 1)"
  unfolding writeOggPage_def ogg_page_def pageBytes_def Let_def
  by (simp add: le32_def)


lemma ParseNextPage_ogg_page:
  assumes len: "length data \<le> 255"
  shows "ParseNextPage (ogg_page hType granule serialNumber pageSequence data @ rest) =
         Inr (data,
              \<lparr>GranulePosition = granule, sig = bytes_of ''OggS'', version = 0,
               headerType = hType, serial = serialNumber, index = pageSequence,
               segmentsCount = 1\<rparr>,
              rest)"
proof -
  define ck where "ck = crc32Ogg (pageBytes hType granule serialNumber pageSequence 0 data)"
  define h where "h = bytes_of ''OggS'' @ [0, hType] @ le64 granule @ le32 serialNumber @
                      le32 pageSequence @ le32 ck @ [1]"
  have page: "ogg_page hType granule serialNumber pageSequence data @ rest =
              h @ [of_nat (length data)] @ data @ rest"
    by (simp add: ogg_page_def pageBytes_def h_def ck_def)
  have lh: "length h = 27" by (simp add: h_def)
  have f1: "take 4 h = bytes_of ''OggS''" by (simp add: h_def)
  have f2: "h ! 4 = 0" "h ! 5 = hType" "h ! 26 = 1" by (simp_all add: h_def nth_append)
  have f3: "take 8 (drop 6 h) = le64 granule" by (simp add: h_def)
  have f4: "take 4 (drop 14 h) = le32 serialNumber" by (simp add: h_def)
  have f5: "take 4 (drop 18 h) = le32 pageSequence" by (simp add: h_def)
  have f6: "take 4 (drop 22 h) = le32 ck" by (simp add: h_def)
  have f7: "take 22 h @ [0, 0, 0, 0] @ drop 26 h @ [of_nat (length data)] @ data =
            pageBytes hType granule serialNumber pageSequence 0 data"
    by (simp add: h_def pageBytes_def le32_def)
  have ck': "Uint32 (take 4 (drop 22 h)) =
             crc32Ogg (take 22 h @ [0, 0, 0, 0] @ drop 26 h @ [of_nat (length data)] @ data)"
    unfolding f6 f7 Uint32_le32 ck_def ..
  show ?thesis
    unfolding page
    using ParseNextPage_page [OF lh f2(3) len ck', of rest]
    by (simp only: f1 f2 f3 f4 f5 Uint32_le32 Uint64_le64)
qed


declare read_pages.simps [simp del] read_end.simps [simp del]
  extract_pages.simps [simp del] extract_pages_v2.simps [simp del]

lemma ParseNextPage_Nil: "ParseNextPage [] = Inl (IO EOF)"
  by (simp add: ParseNextPage_def ReadFull_def)

lemma ParseNextPage_page_bytes:
  "page_ok p \<Longrightarrow> ParseNextPage (page_bytes p @ rest) = Inr (fst p, snd p, rest)"
  unfolding page_ok_def page_bytes_def
  by (cases p) (simp add: ParseNextPage_ogg_page)

lemma read_pages_concat:
  "list_all page_ok ps \<Longrightarrow> read_pages (concat (map page_bytes ps)) = ps"
proof (induction ps)
  case Nil
  show ?case by (subst read_pages.simps) (simp add: ParseNextPage_Nil)
next
  case (Cons p ps)
  then show ?case
    by (subst read_pages.simps) (simp add: ParseNextPage_page_bytes)
qed

lemma read_end_concat:
  "list_all page_ok ps \<Longrightarrow> read_end (concat (map page_bytes ps)) = IO EOF"
proof (induction ps)
  case Nil
  show ?case by (subst read_end.simps) (simp add: ParseNextPage_Nil)
next
  case (Cons p ps)
  then show ?case
    by (subst read_end.simps) (simp add: ParseNextPage_page_bytes)
qed

lemma extract_pages_concat:
  "list_all page_ok ps \<Longrightarrow>
   extract_pages (concat (map page_bytes ps)) acc = Inr (acc @ map fst ps)"
proof (induction ps arbitrary: acc)
  case Nil
  show ?case by (subst extract_pages.simps) (simp add: ParseNextPage_Nil)
next
  case (Cons p ps)
  then show ?case
    by (subst extract_pages.simps) (simp add: ParseNextPage_page_bytes)
qed

lemma extract_pages_v2_concat:
  "list_all page_ok ps \<Longrightarrow>
   extract_pages_v2 (concat (map page_bytes ps)) acc = Inr (acc @ filter kept_v2 (map fst ps))"
proof (induction ps arbitrary: acc)
  case Nil
  show ?case by (subst extract_pages_v2.simps) (simp add: ParseNextPage_Nil)
next
  case (Cons p ps)
  have k: "kept_v2 (fst p) =
           (length (fst p) > 0 \<and>
            \<not> (length (fst p) \<ge> 8 \<and>
               (take 8 (fst p) = bytes_of ''OpusHead'' \<or> take 8 (fst p) = bytes_of ''OpusTags'')))"
    by (simp add: kept_v2_def)
  from Cons show ?case
    by (subst extract_pages_v2.simps) (simp add: ParseNextPage_page_bytes k)
qed

lemma writePackets_eq:
  "writePackets serialNumber n i pkts g (buf, pageSequence) =
     (buf @ concat (map page_bytes (audio_pages serialNumber n i pkts g pageSequence)),
      pageSequence + of_nat (length (audio_pages serialNumber n i pkts g pageSequence)))"
proof (induction pkts arbitrary: i g buf pageSequence)
  case Nil
  show ?case by simp
next
  case (Cons packet rest)
  show ?case
    by (simp add: Cons.IH writeOggPage_eq page_bytes_def Let_def)
qed

lemma createOggOpusFile_eq:
  "createOggOpusFile serialNumber opusPackets =
     concat (map page_bytes (container_pages serialNumber opusPackets))"
  by (simp add: createOggOpusFile_def container_pages_def head_page_def tags_page_def
        writeOggPage_eq writePackets_eq page_bytes_def Let_def)

lemma length_opusHead: "length opusHead = 19"
  by (simp add: opusHead_def)

lemma length_opusTags: "length opusTags = 32"
  by (simp add: opusTags_def)

lemma audio_pages_ok: "list_all page_ok (audio_pages serialNumber n i pkts g pageSequence)"
  by (induction pkts arbitrary: i g pageSequence) (simp_all add: page_ok_def)

lemma container_pages_ok: "list_all page_ok (container_pages serialNumber opusPackets)"
  by (simp add: container_pages_def head_page_def tags_page_def page_ok_def audio_pages_ok
        length_opusHead length_opusTags)

lemma read_pages_createOggOpusFile:
  "read_pages (createOggOpusFile serialNumber opusPackets) =
     container_pages serialNumber opusPackets"
  unfolding createOggOpusFile_eq by (rule read_pages_concat) (rule container_pages_ok)

lemma read_end_createOggOpusFile:
  "read_end (createOggOpusFile serialNumber opusPackets) = IO EOF"
  unfolding createOggOpusFile_eq by (rule read_end_concat) (rule container_pages_ok)

lemma audio_pages_payloads:
  "map fst (audio_pages serialNumber n i pkts g pageSequence) =
     filter (\<lambda>p. 0 < length p \<and> length p \<le> 255) pkts"
  by (induction pkts arbitrary: i g pageSequence) auto

lemma audio_pages_no_eos:
  "i + length pkts = n \<Longrightarrow> pkts \<noteq> [] \<Longrightarrow>
   \<not> (0 < length (last pkts) \<and> length (last pkts) \<le> 255) \<Longrightarrow>
   p \<in> set (audio_pages serialNumber n i pkts g pageSequence) \<Longrightarrow> headerType (snd p) = 0"
proof (induction pkts arbitrary: i g pageSequence)
  case Nil
  then show ?case by simp
next
  case (Cons packet rest)
  show ?case
  proof (cases "rest = []")
    case True
    with Cons.prems show ?thesis by (auto split: if_splits)
  next
    case False
    then have "int i \<noteq> int n - 1" using Cons.prems(1) by (cases rest) auto
    with Cons.prems False Cons.IH [of "i + 1"] show ?thesis
      by (auto split: if_splits)
  qed
qed

lemma audio_pages_granules:
  "map (GranulePosition \<circ> snd) (audio_pages serialNumber n i pkts g pageSequence) =
     map (\<lambda>k. g + 960 * of_nat (Suc k))
       [0..<length (filter (\<lambda>p. 0 < length p \<and> length p \<le> 255) pkts)]"
proof (induction pkts arbitrary: i g pageSequence)
  case Nil
  show ?case by simp
next
  case (Cons packet rest)
  show ?case
  proof (cases "0 < length packet \<and> length packet \<le> 255")
    case False
    then show ?thesis using Cons.IH [of "i + 1" g pageSequence] by auto
  next
    case True
    have step: "(g + 960) + 960 * of_nat (Suc k) = g + 960 * of_nat (Suc (Suc k))" for k
      by (simp add: algebra_simps)
    from True show ?thesis
      using Cons.IH [of "i + 1" "g + 960" "pageSequence + 1"]
      by (simp add: map_upt_Suc step del: upt_Suc of_nat_Suc) simp
  qed
qed


lemma NewWith_head_page:
  "NewWith (page_bytes (head_page serialNumber) @ rest) = Inr rest"
proof -
  have ok: "page_ok (head_page serialNumber)"
    by (simp add: page_ok_def head_page_def length_opusHead)
  have sg: "take 8 opusHead = bytes_of ''OpusHead''"
    by (simp add: opusHead_def)
  show ?thesis
    unfolding NewWith_def ParseNextPage_page_bytes [OF ok]
    by (simp add: head_page_def length_opusHead sg)
qed

lemma createOggOpusFile_split:
  "createOggOpusFile serialNumber opusPackets =
     page_bytes (head_page serialNumber) @
     concat (map page_bytes (tags_page serialNumber #
               audio_pages serialNumber (length opusPackets) 0 opusPackets 0 2))"
  by (simp add: createOggOpusFile_eq container_pages_def)

lemma tail_pages_ok:
  "list_all page_ok (tags_page serialNumber #
      audio_pages serialNumber (length opusPackets) 0 opusPackets 0 2)"
  using container_pages_ok [of serialNumber opusPackets] by (simp add: container_pages_def)

lemma extractOpusPacketsFromOgg_createOggOpusFile:
  "extractOpusPacketsFromOgg (createOggOpusFile serialNumber opusPackets) =
     Inr (opusTags # filter (\<lambda>p. 0 < length p \<and> length p \<le> 255) opusPackets)"
proof -
  have "extract_pages
          (concat (map page_bytes (tags_page serialNumber #
             audio_pages serialNumber (length opusPackets) 0 opusPackets 0 2))) [] =
        Inr ([] @ map fst (tags_page serialNumber #
             audio_pages serialNumber (length opusPackets) 0 opusPackets 0 2))"
    by (rule extract_pages_concat [OF tail_pages_ok])
  then show ?thesis
    unfolding extractOpusPacketsFromOgg_def createOggOpusFile_split NewWith_head_page
    by (simp add: audio_pages_payloads tags_page_def)
qed

lemma kept_v2_opusTags: "\<not> kept_v2 opusTags"
  by (simp add: kept_v2_def opusTags_def)

lemma extractOpusPacketsFromOgg_v2_createOggOpusFile:
  "extractOpusPacketsFromOgg_v2 (createOggOpusFile serialNumber opusPackets) =
     Inr (filter kept_v2 (filter (\<lambda>p. 0 < length p \<and> length p \<le> 255) opusPackets))"
proof -
  have "extract_pages_v2
          (concat (map page_bytes (tags_page serialNumber #
             audio_pages serialNumber (length opusPackets) 0 opusPackets 0 2))) [] =
        Inr ([] @ filter kept_v2 (map fst (tags_page serialNumber #
             audio_pages serialNumber (length opusPackets) 0 opusPackets 0 2)))"
    by (rule extract_pages_v2_concat [OF tail_pages_ok])
  then show ?thesis
    unfolding extractOpusPacketsFromOgg_v2_def createOggOpusFile_split NewWith_head_page
    by (simp add: audio_pages_payloads tags_page_def kept_v2_opusTags)
qed

lemma crc32Table_standard: "crc32Table = map checksumTableEntry [0..<256]"
  using generateChecksumTable_eq by (simp add: generateChecksumTable_def)

lemma ogg_page_checksum:
  "Uint32 (take 4 (drop 22 (ogg_page hType granule serialNumber pageSequence data))) =
   crc32Ogg (take 22 (ogg_page hType granule serialNumber pageSequence data) @ [0, 0, 0, 0] @
             drop 26 (ogg_page hType granule serialNumber pageSequence data))"
proof -
  define ck where "ck = crc32Ogg (pageBytes hType granule serialNumber pageSequence 0 data)"
  have pg: "ogg_page hType granule serialNumber pageSequence data =
            pageBytes hType granule serialNumber pageSequence ck data"
    by (simp add: ogg_page_def ck_def)
  have a: "take 4 (drop 22 (pageBytes hType granule serialNumber pageSequence ck data)) = le32 ck"
    by (simp add: pageBytes_def)
  have b: "take 22 (pageBytes hType granule serialNumber pageSequence ck data) @ [0, 0, 0, 0] @
           drop 26 (pageBytes hType granule serialNumber pageSequence ck data) =
           pageBytes hType granule serialNumber pageSequence 0 data"
    by (simp add: pageBytes_def le32_def)
  show ?thesis unfolding pg a b Uint32_le32 by (simp add: ck_def)
qed

text \<open>
  Claim C8. The page that \<open>writeOggPage\<close> appends leaves the bytes already in the buffer
  unchanged, and the 32-bit value stored at offset 22 of the page is \<open>crc32Ogg\<close> of the
  whole page with the four bytes of that field set to zero. The table \<open>crc32Table\<close> is
  the table of the polynomial \<open>0x04C11DB7\<close>: entry \<open>i\<close> is \<open>i << 24\<close> after eight
  shift-and-reduce steps. Every page of the container passes the check of the page
  reader, which recomputes the checksum: reading the container to its end finds
  \<open>io.EOF\<close>, and the pages read are, byte for byte, the container.
\<close>

theorem writeOggPage_checksum_field:
  "(let (buf', pageSequence') =
          writeOggPage serialNumber (buf, pageSequence) data hType granule isFirst;
        page = drop (length buf) buf'
    in take (length buf) buf' = buf \<and>
       Uint32 (take 4 (drop 22 page)) =
         crc32Ogg (take 22 page @ [0, 0, 0, 0] @ drop 26 page)) \<and>
   crc32Table = map checksumTableEntry [0..<256] \<and>
   concat (map page_bytes (read_pages (createOggOpusFile serialNumber opusPackets))) =
     createOggOpusFile serialNumber opusPackets \<and>
   read_end (createOggOpusFile serialNumber opusPackets) = IO EOF"
proof -
  have "concat (map page_bytes (read_pages (createOggOpusFile serialNumber opusPackets))) =
        createOggOpusFile serialNumber opusPackets"
    unfolding read_pages_createOggOpusFile by (simp only: createOggOpusFile_eq)
  then show ?thesis
    by (simp add: writeOggPage_eq ogg_page_checksum crc32Table_standard [symmetric]
          read_end_createOggOpusFile del: upt.simps)
qed

lemma container_pages_no_eos:
  assumes "opusPackets \<noteq> []"
    and "\<not> (0 < length (last opusPackets) \<and> length (last opusPackets) \<le> 255)"
  shows "list_all (\<lambda>p. headerType (snd p) AND 0x04 = 0)
           (container_pages serialNumber opusPackets)"
proof -
  have "headerType (snd p) = 0"
    if "p \<in> set (audio_pages serialNumber (length opusPackets) 0 opusPackets 0 2)" for p
    using audio_pages_no_eos [OF _ assms that] by simp
  then show ?thesis
    by (auto simp add: container_pages_def head_page_def tags_page_def list_all_iff)
qed

text \<open>
  Claim C10. The container holds the two header pages and then one page for each frame
  of 1 to 255 bytes, in order, with the frame as payload; an empty frame and a frame
  longer than 255 bytes get no page. When the last frame of a non-empty batch is such a
  frame, no page of the container has the end-of-stream bit \<open>0x04\<close> in its header
  type.
\<close>

theorem createOggOpusFile_skips_frames:
  "map fst (read_pages (createOggOpusFile serialNumber opusPackets)) =
     opusHead # opusTags # filter (\<lambda>p. 0 < length p \<and> length p \<le> 255) opusPackets \<and>
   length (read_pages (createOggOpusFile serialNumber opusPackets)) =
     2 + length (filter (\<lambda>p. 0 < length p \<and> length p \<le> 255) opusPackets) \<and>
   read_end (createOggOpusFile serialNumber opusPackets) = IO EOF \<and>
   (opusPackets \<noteq> [] \<and> \<not> (0 < length (last opusPackets) \<and> length (last opusPackets) \<le> 255) \<longrightarrow>
      list_all (\<lambda>p. headerType (snd p) AND 0x04 = 0)
        (read_pages (createOggOpusFile serialNumber opusPackets)))"
proof -
  have pl: "map fst (container_pages serialNumber opusPackets) =
        opusHead # opusTags # filter (\<lambda>p. 0 < length p \<and> length p \<le> 255) opusPackets"
    by (simp add: container_pages_def head_page_def tags_page_def audio_pages_payloads)
  have "length (map fst (container_pages serialNumber opusPackets)) =
        2 + length (filter (\<lambda>p. 0 < length p \<and> length p \<le> 255) opusPackets)"
    unfolding pl by simp
  then have ln: "length (container_pages serialNumber opusPackets) =
        2 + length (filter (\<lambda>p. 0 < length p \<and> length p \<le> 255) opusPackets)"
    by simp
  show ?thesis
    unfolding read_pages_createOggOpusFile read_end_createOggOpusFile
    using pl ln container_pages_no_eos [of opusPackets serialNumber] by blast
qed

theorem createOggOpusFile_skips_frames_witness:
  "list_all (\<lambda>p. headerType (snd p) AND 0x04 = 0)
     (read_pages (createOggOpusFile 0 [[1], []])) \<and>
   length (read_pages (createOggOpusFile 0 [[1], []])) = 3"
  using createOggOpusFile_skips_frames [of 0 "[[1], []]"] by simp

text \<open>
  Claim C2. The container that holds only the two header pages (what
  \<open>createOggOpusFile\<close> returns for no frames) is decoded by
  \<open>extractOpusPacketsFromOgg\<close> of client/main.go to one frame, the 32 bytes of the
  comment header: \<open>NewWith\<close> consumes the identification page and the loop appends
  every page after it. The other variant of the decoder returns no frame for the same
  container.
\<close>

theorem extractOpusPacketsFromOgg_emits_comment_header:
  "extractOpusPacketsFromOgg (createOggOpusFile 0 []) = Inr [opusTags] \<and>
   length opusTags = 32 \<and>
   map fst (read_pages (createOggOpusFile 0 [])) = [opusHead, opusTags] \<and>
   extractOpusPacketsFromOgg_v2 (createOggOpusFile 0 []) = Inr []"
  by (simp add: extractOpusPacketsFromOgg_createOggOpusFile
        extractOpusPacketsFromOgg_v2_createOggOpusFile length_opusTags
        read_pages_createOggOpusFile container_pages_def head_page_def tags_page_def)

lemma granule_unat:
  "960 * Suc k < 2 ^ 64 \<Longrightarrow> unat (960 * of_nat (Suc k) :: 64 word) = 960 * Suc k"
proof -
  assume b: "960 * Suc k < 2 ^ 64"
  have "(960 * of_nat (Suc k) :: 64 word) = of_nat (960 * Suc k)" by simp
  then have "unat (960 * of_nat (Suc k) :: 64 word) = (960 * Suc k) mod 2 ^ 64"
    by (simp only: unat_of_nat) simp
  with b show ?thesis by simp
qed

lemma granules_increasing:
  assumes "960 * m < (2 :: nat) ^ 64"
  shows "sorted_wrt (<) (map (\<lambda>k. 960 * of_nat (Suc k) :: 64 word) [0..<m])"
proof -
  have "(960 * of_nat (Suc i) :: 64 word) < 960 * of_nat (Suc j)" if "i < j" "j < m" for i j
  proof -
    have bi: "960 * Suc i < 2 ^ 64" and bj: "960 * Suc j < 2 ^ 64"
      using that assms by simp_all
    show ?thesis
      unfolding word_less_nat_alt granule_unat [OF bi] granule_unat [OF bj]
      using that by simp
  qed
  then show ?thesis by (simp add: sorted_wrt_iff_nth_less)
qed

text \<open>
  Claim C4, as the code has it. When every frame of the batch has 1 to 255 bytes, the
  pages after the two header pages carry exactly the frames, byte for byte and in order,
  and the decoder variant that passes over header pages returns them (except frames that
  begin with \<open>OpusHead\<close> or \<open>OpusTags\<close>, which it passes over too). For every batch
  the granule position of the \<open>k\<close>-th audio page is \<open>960 * k\<close>, and the granule
  positions are strictly increasing as long as \<open>960\<close> times the number of frames is
  below \<open>2^64\<close>.
\<close>

theorem createOggOpusFile_round_trip:
  "((\<forall>p \<in> set opusPackets. 0 < length p \<and> length p \<le> 255) \<longrightarrow>
      map fst (drop 2 (read_pages (createOggOpusFile serialNumber opusPackets))) = opusPackets \<and>
      extractOpusPacketsFromOgg_v2 (createOggOpusFile serialNumber opusPackets) =
        Inr (filter kept_v2 opusPackets)) \<and>
   map (GranulePosition \<circ> snd) (drop 2 (read_pages (createOggOpusFile serialNumber opusPackets))) =
     map (\<lambda>k. 960 * of_nat (Suc k))
       [0..<length (filter (\<lambda>p. 0 < length p \<and> length p \<le> 255) opusPackets)] \<and>
   (960 * length opusPackets < 2 ^ 64 \<longrightarrow>
      sorted_wrt (<)
        (map (GranulePosition \<circ> snd)
           (drop 2 (read_pages (createOggOpusFile serialNumber opusPackets)))))"
proof -
  let ?valid = "\<lambda>p :: byte list. 0 < length p \<and> length p \<le> 255"
  have d2: "drop 2 (read_pages (createOggOpusFile serialNumber opusPackets)) =
            audio_pages serialNumber (length opusPackets) 0 opusPackets 0 2"
    by (simp add: read_pages_createOggOpusFile container_pages_def)
  have all: "filter ?valid opusPackets = opusPackets"
    if "\<forall>p \<in> set opusPackets. ?valid p"
    using that by (simp add: filter_id_conv)
  have g: "map (GranulePosition \<circ> snd) (audio_pages serialNumber (length opusPackets) 0 opusPackets 0 2) =
           map (\<lambda>k. 960 * of_nat (Suc k)) [0..<length (filter ?valid opusPackets)]"
    using audio_pages_granules [of serialNumber "length opusPackets" 0 opusPackets 0 2] by simp
  have inc: "sorted_wrt (<) (map (\<lambda>k. 960 * of_nat (Suc k) :: 64 word)
                [0..<length (filter ?valid opusPackets)])"
    if "960 * length opusPackets < (2 :: nat) ^ 64"
  proof (rule granules_increasing)
    have "length (filter ?valid opusPackets) \<le> length opusPackets" by simp
    then have "960 * length (filter ?valid opusPackets) \<le> 960 * length opusPackets" by simp
    with that show "960 * length (filter ?valid opusPackets) < 2 ^ 64" by linarith
  qed
  show ?thesis
    unfolding d2 g extractOpusPacketsFromOgg_v2_createOggOpusFile audio_pages_payloads
    using all inc by auto
qed

theorem createOggOpusFile_round_trip_witness:
  "map fst (drop 2 (read_pages (createOggOpusFile 7 [[1], [2, 3]]))) = [[1], [2, 3]] \<and>
   extractOpusPacketsFromOgg_v2 (createOggOpusFile 7 [[1], [2, 3]]) = Inr [[1], [2, 3]] \<and>
   sorted_wrt (<)
     (map (GranulePosition \<circ> snd) (drop 2 (read_pages (createOggOpusFile 7 [[1], [2, 3]]))))"
  using createOggOpusFile_round_trip [of "[[1], [2, 3]]" 7]
  by (simp add: kept_v2_def)

theorem createOggOpusFile_round_trip_counterexample:
  "extractOpusPacketsFromOgg (createOggOpusFile 0 [replicate 256 0]) \<noteq> Inr [replicate 256 0] \<and>
   extractOpusPacketsFromOgg_v2 (createOggOpusFile 0 [replicate 256 0]) = Inr []"
proof -
  have "opusTags \<noteq> replicate 256 0"
  proof
    assume a: "opusTags = replicate 256 0"
    have "length opusTags = length (replicate 256 (0 :: byte))"
      by (rule arg_cong [OF a])
    then show False by (simp add: length_opusTags)
  qed
  then show ?thesis
    by (simp add: extractOpusPacketsFromOgg_createOggOpusFile
          extractOpusPacketsFromOgg_v2_createOggOpusFile)
qed

section \<open>Signaling handler properties\<close>

lemma writeAnswer_failure:
  "SetRemoteDescription_err w \<noteq> None \<or> CreateAnswer_err w \<noteq> None \<or>
   SetLocalDescription_err w \<noteq> None \<Longrightarrow>
   \<exists>msg. writeAnswer w path = Response 500 None msg"
  by (auto simp: writeAnswer_def http_Error_def split: option.splits)

lemma whipHandler_negotiation_failure:
  assumes "Method req \<noteq> ''OPTIONS''" "room_query req \<noteq> []" "Body req = Some offer"
    and "RegisterCodec_err w = None" "NewPeerConnection_err w = None"
        "NewTrackLocalStaticRTP_err w = None" "AddTrack_err w = None"
    and "SetRemoteDescription_err w \<noteq> None \<or> CreateAnswer_err w \<noteq> None \<or>
         SetLocalDescription_err w \<noteq> None"
    and "rooms (roomManager srv) (room_query req) = None"
  shows "\<exists>msg. snd (whipHandler srv req w) = Response 500 None msg"
    and "rooms (roomManager (fst (whipHandler srv req w))) (room_query req) =
           Some \<lparr>ID = room_query req, PeerA = Some (next_peer srv), PeerB = None\<rparr>"
  using assms writeAnswer_failure [of w "''/whip''"]
  by (auto simp: whipHandler_def getOrCreateRoom_def addPeer_def Let_def)

text \<open>
  Claim C1. A request for the unseen room \<open>r1\<close> whose offer the stack rejects in
  \<open>SetRemoteDescription\<close>: the handler answers 500, and the room \<open>r1\<close> now exists
  with the peer of the failed session in slot A, because the peer is registered before
  \<open>writeAnswer\<close> negotiates.
\<close>

theorem whipHandler_failed_negotiation_registers_peer:
  "(let srv = \<lparr>roomManager = \<lparr>rooms = Map.empty\<rparr>, relays = [], next_peer = 0\<rparr>;
        req = \<lparr>Method = ''POST'', room_query = ''r1'', Body = Some ''not an offer''\<rparr>;
        w = \<lparr>RegisterCodec_err = None, NewPeerConnection_err = None,
             NewTrackLocalStaticRTP_err = None, AddTrack_err = None,
             SetRemoteDescription_err = Some ''bad offer'', CreateAnswer_err = None,
             SetLocalDescription_err = None, LocalDescription_SDP = []\<rparr>;
        (srv', res) = whipHandler srv req w
    in res = Response 500 None (''bad offer'' @ [CHR 0x0A]) \<and>
       rooms (roomManager srv') ''r1'' = Some \<lparr>ID = ''r1'', PeerA = Some 0, PeerB = None\<rparr>)"
  by (simp add: whipHandler_def getOrCreateRoom_def addPeer_def writeAnswer_def http_Error_def
        Let_def)

section \<open>Relay properties\<close>

lemma forward_written:
  "\<forall>k < length pkts. \<not> wfail dst (length (written dst) + k) \<Longrightarrow>
   forward RTPCodecTypeAudio (map Inr pkts) dst =
     dst\<lparr>written := written dst @
            map (\<lambda>pkt. pkt\<lparr>Header := (Header pkt)\<lparr>Extension := False, Extensions := []\<rparr>\<rparr>) pkts\<rparr>"
proof (induction pkts arbitrary: dst)
  case Nil
  show ?case by simp
next
  case (Cons pkt rest)
  let ?p = "pkt\<lparr>Header := (Header pkt)\<lparr>Extension := False, Extensions := []\<rparr>\<rparr>"
  let ?dst' = "dst\<lparr>written := written dst @ [?p]\<rparr>"
  have w0: "\<not> wfail dst (length (written dst))" using Cons.prems by force
  have wr: "WriteRTP dst ?p = Inr ?dst'" using w0 by (simp add: WriteRTP_def)
  have "\<forall>k < length rest. \<not> wfail ?dst' (length (written ?dst') + k)"
  proof (intro allI impI)
    fix k assume "k < length rest"
    then have "Suc k < length (pkt # rest)" by simp
    with Cons.prems have "\<not> wfail dst (length (written dst) + Suc k)" by blast
    then show "\<not> wfail ?dst' (length (written ?dst') + k)" by simp
  qed
  from Cons.IH [OF this] show ?case by (simp add: wr Let_def)
qed

lemma forward_v2_written:
  "\<forall>k < length pkts. \<not> wfail dst (length (written dst) + k) \<Longrightarrow>
   forward_v2 RTPCodecTypeAudio (map Inr pkts) dst =
     dst\<lparr>written := written dst @
            map (\<lambda>pkt.
                  \<lparr>Header =
                     \<lparr>Version = 2, Padding = False, Extension = False,
                      Marker = Marker (Header pkt),
                      PayloadType = PayloadType (Header pkt),
                      SequenceNumber = SequenceNumber (Header pkt),
                      Timestamp = Timestamp (Header pkt),
                      SSRC = SSRC (Header pkt),
                      CSRC = [], ExtensionProfile = 0, Extensions = []\<rparr>,
                   Payload = Payload pkt\<rparr>)
              (filter (\<lambda>pkt. Payload pkt \<noteq> []) pkts)\<rparr>"
proof (induction pkts arbitrary: dst)
  case Nil
  show ?case by simp
next
  case (Cons pkt rest)
  show ?case
  proof (cases "Payload pkt = []")
    case True
    have "\<forall>k < length rest. \<not> wfail dst (length (written dst) + k)"
      using Cons.prems by force
    from Cons.IH [OF this] True show ?thesis by simp
  next
    case False
    let ?p = "\<lparr>Header =
                     \<lparr>Version = 2, Padding = False, Extension = False,
                      Marker = Marker (Header pkt),
                      PayloadType = PayloadType (Header pkt),
                      SequenceNumber = SequenceNumber (Header pkt),
                      Timestamp = Timestamp (Header pkt),
                      SSRC = SSRC (Header pkt),
                      CSRC = [], ExtensionProfile = 0, Extensions = []\<rparr>,
                   Payload = Payload pkt\<rparr>"
    let ?dst' = "dst\<lparr>written := written dst @ [?p]\<rparr>"
    have w0: "\<not> wfail dst (length (written dst))" using Cons.prems by force
    have wr: "WriteRTP dst ?p = Inr ?dst'" using w0 by (simp add: WriteRTP_def)
    have "\<forall>k < length rest. \<not> wfail ?dst' (length (written ?dst') + k)"
    proof (intro allI impI)
      fix k assume "k < length rest"
      then have "Suc k < length (pkt # rest)" by simp
      with Cons.prems have "\<not> wfail dst (length (written dst) + Suc k)" by blast
      then show "\<not> wfail ?dst' (length (written ?dst') + k)" by simp
    qed
    from Cons.IH [OF this] False show ?thesis by (simp add: wr Let_def)
  qed
qed

lemma forward_other_kind:
  "kind \<noteq> RTPCodecTypeAudio \<Longrightarrow> forward kind reads dst = dst"
  by (induction kind reads dst rule: forward.induct) (simp_all add: Let_def)

lemma forward_v2_other_kind:
  "kind \<noteq> RTPCodecTypeAudio \<Longrightarrow> forward_v2 kind reads dst = dst"
  by (induction kind reads dst rule: forward_v2.induct) simp_all


text \<open>
  Claim C3, as the code has it. While no write to the destination track fails, the
  relay of server/main.go writes every audio packet it reads, in order, with the
  payload unchanged and the header extensions removed; the second variant does the same
  for the packets whose payload is not empty and passes over the others. A track of
  another kind is read and nothing is written.
\<close>

theorem forward_relays_in_order:
  "((\<forall>k < length pkts. \<not> wfail dst (length (written dst) + k)) \<longrightarrow>
      written (forward RTPCodecTypeAudio (map Inr pkts) dst) =
        written dst @
        map (\<lambda>pkt. pkt\<lparr>Header := (Header pkt)\<lparr>Extension := False, Extensions := []\<rparr>\<rparr>) pkts \<and>
      map Payload (drop (length (written dst))
                     (written (forward RTPCodecTypeAudio (map Inr pkts) dst))) =
        map Payload pkts \<and>
      map Payload (drop (length (written dst))
                     (written (forward_v2 RTPCodecTypeAudio (map Inr pkts) dst))) =
        filter (\<lambda>payload. payload \<noteq> []) (map Payload pkts) \<and>
      list_all (\<lambda>pkt. \<not> Extension (Header pkt) \<and> Extensions (Header pkt) = [])
        (drop (length (written dst)) (written (forward RTPCodecTypeAudio (map Inr pkts) dst))) \<and>
      list_all (\<lambda>pkt. \<not> Extension (Header pkt) \<and> Extensions (Header pkt) = [])
        (drop (length (written dst))
           (written (forward_v2 RTPCodecTypeAudio (map Inr pkts) dst)))) \<and>
   (kind \<noteq> RTPCodecTypeAudio \<longrightarrow>
      forward kind reads dst = dst \<and> forward_v2 kind reads dst = dst)"
proof -
  have "map Payload (filter (\<lambda>pkt. Payload pkt \<noteq> []) pkts) =
        filter (\<lambda>payload. payload \<noteq> []) (map Payload pkts)"
    by (induction pkts) simp_all
  then show ?thesis
    by (simp add: forward_written forward_v2_written forward_other_kind forward_v2_other_kind
          comp_def list_all_iff)
qed

theorem forward_relays_in_order_witness:
  "(let hdr = \<lparr>Version = 2, Padding = False, Extension = True, Marker = False,
               PayloadType = 111, SequenceNumber = 1, Timestamp = 0, SSRC = 5, CSRC = [],
               ExtensionProfile = 0xBEDE, Extensions = [(1, [7])]\<rparr>;
        dst = \<lparr>written = [], wfail = (\<lambda>k. False)\<rparr>
    in map Payload
         (written (forward RTPCodecTypeAudio
                     [Inr \<lparr>Header = hdr, Payload = [1, 2]\<rparr>, Inr \<lparr>Header = hdr, Payload = [3]\<rparr>]
                     dst)) = [[1, 2], [3]] \<and>
       forward RTPCodecTypeVideo [Inr \<lparr>Header = hdr, Payload = [1, 2]\<rparr>] dst = dst)"
  using forward_relays_in_order
          [of "[\<lparr>Header = \<lparr>Version = 2, Padding = False, Extension = True, Marker = False,
                   PayloadType = 111, SequenceNumber = 1, Timestamp = 0, SSRC = 5, CSRC = [],
                   ExtensionProfile = 0xBEDE, Extensions = [(1, [7])]\<rparr>, Payload = [1, 2]\<rparr>,
                \<lparr>Header = \<lparr>Version = 2, Padding = False, Extension = True, Marker = False,
                   PayloadType = 111, SequenceNumber = 1, Timestamp = 0, SSRC = 5, CSRC = [],
                   ExtensionProfile = 0xBEDE, Extensions = [(1, [7])]\<rparr>, Payload = [3]\<rparr>]"
              "\<lparr>written = [], wfail = (\<lambda>k. False)\<rparr>" RTPCodecTypeVideo
              "[Inr \<lparr>Header = \<lparr>Version = 2, Padding = False, Extension = True, Marker = False,
                   PayloadType = 111, SequenceNumber = 1, Timestamp = 0, SSRC = 5, CSRC = [],
                   ExtensionProfile = 0xBEDE, Extensions = [(1, [7])]\<rparr>, Payload = [1, 2]\<rparr>]"]
  by (simp add: Let_def)

theorem forward_relays_in_order_counterexample:
  "(let hdr = \<lparr>Version = 2, Padding = False, Extension = False, Marker = False,
               PayloadType = 111, SequenceNumber = 1, Timestamp = 0, SSRC = 5, CSRC = [],
               ExtensionProfile = 0, Extensions = []\<rparr>;
        dst = \<lparr>written = [], wfail = (\<lambda>k. False)\<rparr>
    in written (forward_v2 RTPCodecTypeAudio
                  [Inr \<lparr>Header = hdr, Payload = []\<rparr>, Inr \<lparr>Header = hdr, Payload = [3]\<rparr>] dst) =
         [\<lparr>Header = hdr, Payload = [3]\<rparr>] \<and>
       written (forward RTPCodecTypeAudio
                  [Inr \<lparr>Header = hdr, Payload = [1]\<rparr>, Inr \<lparr>Header = hdr, Payload = [3]\<rparr>]
                  \<lparr>written = [], wfail = (\<lambda>k. k = 1)\<rparr>) =
         [\<lparr>Header = hdr, Payload = [1]\<rparr>])"
  by (simp add: Let_def WriteRTP_def)

section \<open>Packetizer properties\<close>

lemma sendFrames_written:
  "\<forall>k < length fs. \<not> wfail t (length (written t) + k) \<Longrightarrow>
   sendFrames n i fs (of_nat i) (960 * of_nat i) t =
     (t\<lparr>written := written t @ map (\<lambda>k. frame_packet 97 n (i + k) (fs ! k)) [0..<length fs]\<rparr>,
      None)"
proof (induction fs arbitrary: i t)
  case Nil
  show ?case by simp
next
  case (Cons f rest)
  let ?t' = "t\<lparr>written := written t @ [frame_packet 97 n i f]\<rparr>"
  have w0: "\<not> wfail t (length (written t))" using Cons.prems by force
  have wr: "WriteRTP t (frame_packet 97 n i f) = Inr ?t'"
    using w0 by (simp add: WriteRTP_def)
  have ok: "\<forall>k < length rest. \<not> wfail ?t' (length (written ?t') + k)"
  proof (intro allI impI)
    fix k assume "k < length rest"
    then have "Suc k < length (f # rest)" by simp
    with Cons.prems have "\<not> wfail t (length (written t) + Suc k)" by blast
    then show "\<not> wfail ?t' (length (written ?t') + k)" by simp
  qed
  have s1: "(of_nat i :: 16 word) + 1 = of_nat (i + 1)" by simp
  have s2: "(960 * of_nat i :: 32 word) + 960 = 960 * of_nat (i + 1)" by (simp add: algebra_simps)
  have "sendFrames n i (f # rest) (of_nat i) (960 * of_nat i) t =
        sendFrames n (i + 1) rest (of_nat (i + 1)) (960 * of_nat (i + 1)) ?t'"
    using wr unfolding s1 [symmetric] s2 [symmetric]
    by (simp add: frame_packet_def Let_def)
  also have "\<dots> = (?t'\<lparr>written := written ?t' @
                  map (\<lambda>k. frame_packet 97 n (i + 1 + k) (rest ! k)) [0..<length rest]\<rparr>, None)"
    by (rule Cons.IH [OF ok])
  finally show ?case by (simp add: map_upt_Suc del: upt_Suc)
qed


lemma sendFrames_v2_written:
  "\<forall>k < length fs. \<not> wfail t (length (written t) + k) \<Longrightarrow> [] \<notin> set fs \<Longrightarrow>
   sendFrames_v2 n i fs (of_nat i) (960 * of_nat i) t =
     (t\<lparr>written := written t @ map (\<lambda>k. frame_packet 96 n (i + k) (fs ! k)) [0..<length fs]\<rparr>,
      None)"
proof (induction fs arbitrary: i t)
  case Nil
  show ?case by simp
next
  case (Cons f rest)
  let ?t' = "t\<lparr>written := written t @ [frame_packet 96 n i f]\<rparr>"
  have ne: "f \<noteq> []" and ne': "[] \<notin> set rest" using Cons.prems(2) by auto
  have w0: "\<not> wfail t (length (written t))" using Cons.prems(1) by force
  have wr: "WriteRTP t (frame_packet 96 n i f) = Inr ?t'"
    using w0 by (simp add: WriteRTP_def)
  have ok: "\<forall>k < length rest. \<not> wfail ?t' (length (written ?t') + k)"
  proof (intro allI impI)
    fix k assume "k < length rest"
    then have "Suc k < length (f # rest)" by simp
    with Cons.prems(1) have "\<not> wfail t (length (written t) + Suc k)" by blast
    then show "\<not> wfail ?t' (length (written ?t') + k)" by simp
  qed
  have s1: "(of_nat i :: 16 word) + 1 = of_nat (i + 1)" by simp
  have s2: "(960 * of_nat i :: 32 word) + 960 = 960 * of_nat (i + 1)" by (simp add: algebra_simps)
  have "sendFrames_v2 n i (f # rest) (of_nat i) (960 * of_nat i) t =
        sendFrames_v2 n (i + 1) rest (of_nat (i + 1)) (960 * of_nat (i + 1)) ?t'"
    using wr ne unfolding s1 [symmetric] s2 [symmetric]
    by (simp add: frame_packet_def Let_def)
  also have "\<dots> = (?t'\<lparr>written := written ?t' @
                  map (\<lambda>k. frame_packet 96 n (i + 1 + k) (rest ! k)) [0..<length rest]\<rparr>, None)"
    by (rule Cons.IH [OF ok ne'])
  finally show ?case by (simp add: map_upt_Suc del: upt_Suc)
qed

lemma extract_pages_v2_nonempty:
  "extract_pages_v2 reader acc = Inr frames \<Longrightarrow> [] \<notin> set acc \<Longrightarrow> [] \<notin> set frames"
proof (induction reader acc rule: extract_pages_v2.induct)
  case (1 reader packets)
  from "1.prems" "1.IH" show ?case
    by (subst (asm) extract_pages_v2.simps) (auto split: sum.splits prod.splits if_splits)
qed

lemma extractOpusPacketsFromOgg_v2_nonempty:
  "(case extractOpusPacketsFromOgg_v2 audioData of Inl err \<Rightarrow> True | Inr frames \<Rightarrow> [] \<notin> set frames)"
  by (auto simp: extractOpusPacketsFromOgg_v2_def split: sum.splits
           dest: extract_pages_v2_nonempty)

lemma seq_less:
  "j < k \<Longrightarrow> k < 65536 \<Longrightarrow> (of_nat j :: 16 word) < of_nat k"
  by (simp add: word_less_nat_alt unat_of_nat)


text \<open>
  Claim C9, as the code has it. While no write fails, the loop of \<open>sendAudioToTrack\<close>
  writes one packet for each frame, in order: the packet for frame \<open>k\<close> has the 16-bit
  sequence number \<open>k mod 2^16\<close> (it starts at 0 and each packet's is the previous one
  plus 1, so the sequence numbers are strictly increasing up to frame 65535), the 32-bit
  timestamp \<open>960 * k\<close> (each packet's is the previous one plus 960), and the marker set
  exactly on frame \<open>n - 1\<close> of a batch of \<open>n\<close>. The second variant does the same with
  payload type 96 for a batch without an empty frame, and its decoder never returns an
  empty frame.
\<close>

theorem sendAudioToTrack_packet_headers:
  "((\<forall>k < length frames. \<not> wfail track (length (written track) + k)) \<longrightarrow>
      sendFrames (length frames) 0 frames 0 0 track =
        (track\<lparr>written := written track @
            map (\<lambda>k. frame_packet 97 (length frames) k (frames ! k)) [0..<length frames]\<rparr>,
         None) \<and>
      ([] \<notin> set frames \<longrightarrow>
         sendFrames_v2 (length frames) 0 frames 0 0 track =
           (track\<lparr>written := written track @
               map (\<lambda>k. frame_packet 96 (length frames) k (frames ! k)) [0..<length frames]\<rparr>,
            None))) \<and>
   (case extractOpusPacketsFromOgg_v2 audioData of
      Inl err \<Rightarrow> True
    | Inr opusPackets \<Rightarrow> [] \<notin> set opusPackets) \<and>
   SequenceNumber (Header (frame_packet pt n 0 f)) = 0 \<and>
   SequenceNumber (Header (frame_packet pt n (Suc k) f)) =
     SequenceNumber (Header (frame_packet pt n k g)) + 1 \<and>
   (j < k \<and> k < 65536 \<longrightarrow>
      SequenceNumber (Header (frame_packet pt n j f)) <
      SequenceNumber (Header (frame_packet pt n k g))) \<and>
   Timestamp (Header (frame_packet pt n 0 f)) = 0 \<and>
   Timestamp (Header (frame_packet pt n (Suc k) f)) =
     Timestamp (Header (frame_packet pt n k g)) + 960 \<and>
   (k < n \<longrightarrow> Marker (Header (frame_packet pt n k f)) = (k = n - 1))"
proof -
  have a: "sendFrames (length frames) 0 frames 0 0 track =
        (track\<lparr>written := written track @
            map (\<lambda>k. frame_packet 97 (length frames) k (frames ! k)) [0..<length frames]\<rparr>,
         None)"
    if "\<forall>k < length frames. \<not> wfail track (length (written track) + k)"
    using sendFrames_written [OF that, of "length frames" 0] by simp
  have b: "sendFrames_v2 (length frames) 0 frames 0 0 track =
        (track\<lparr>written := written track @
            map (\<lambda>k. frame_packet 96 (length frames) k (frames ! k)) [0..<length frames]\<rparr>,
         None)"
    if "\<forall>k < length frames. \<not> wfail track (length (written track) + k)" "[] \<notin> set frames"
    using sendFrames_v2_written [OF that, of "length frames" 0] by simp
  have c: "SequenceNumber (Header (frame_packet pt n 0 f)) = 0"
    and c': "Timestamp (Header (frame_packet pt n 0 f)) = 0"
    by (simp_all add: frame_packet_def)
  have d: "SequenceNumber (Header (frame_packet pt n (Suc k) f)) =
           SequenceNumber (Header (frame_packet pt n k g)) + 1"
    by (simp add: frame_packet_def)
  have e: "Timestamp (Header (frame_packet pt n (Suc k) f)) =
           Timestamp (Header (frame_packet pt n k g)) + 960"
    by (simp add: frame_packet_def algebra_simps)
  have f: "SequenceNumber (Header (frame_packet pt n j f)) <
           SequenceNumber (Header (frame_packet pt n k g))" if "j < k \<and> k < 65536"
    using that seq_less [of j k] by (simp add: frame_packet_def)
  have g: "Marker (Header (frame_packet pt n k f)) = (k = n - 1)" if "k < n"
    using that by (auto simp add: frame_packet_def)
  from a b extractOpusPacketsFromOgg_v2_nonempty [of audioData] c c' d e f g
  show ?thesis by blast
qed

theorem sendAudioToTrack_packet_headers_witness:
  "sendFrames 2 0 [[1], [2, 3]] 0 0 \<lparr>written = [], wfail = (\<lambda>k. False)\<rparr> =
     (\<lparr>written = [frame_packet 97 2 0 [1], frame_packet 97 2 1 [2, 3]], wfail = (\<lambda>k. False)\<rparr>,
      None) \<and>
   sendFrames_v2 2 0 [[1], [2, 3]] 0 0 \<lparr>written = [], wfail = (\<lambda>k. False)\<rparr> =
     (\<lparr>written = [frame_packet 96 2 0 [1], frame_packet 96 2 1 [2, 3]], wfail = (\<lambda>k. False)\<rparr>,
      None) \<and>
   SequenceNumber (Header (frame_packet 97 2 0 [1])) <
     SequenceNumber (Header (frame_packet 97 2 1 [2, 3])) \<and>
   \<not> Marker (Header (frame_packet 97 2 0 [1])) \<and> Marker (Header (frame_packet 97 2 1 [2, 3]))"
proof -
  let ?t = "\<lparr>written = [], wfail = (\<lambda>k. False)\<rparr> :: Track"
  let ?F = "[[1], [2, 3]] :: byte list list"
  have h: "\<forall>k < length ?F. \<not> wfail ?t (length (written ?t) + k)" by simp
  have ne: "[] \<notin> set ?F" by simp
  have len: "length ?F = 2" by simp
  have u: "[0..<2] = [0, 1]" by (simp add: upt_rec)
  have n0: "?F ! 0 = [1]" and n1: "?F ! 1 = [2, 3]" by simp_all
  note T1 = sendAudioToTrack_packet_headers [of ?F ?t "[]" 97 2 "[1]" 1 "[2, 3]" 0]
  note T2 = sendAudioToTrack_packet_headers [of ?F ?t "[]" 97 2 "[2, 3]" 1 "[1]" 0]
  note T3 = sendAudioToTrack_packet_headers [of ?F ?t "[]" 97 2 "[1]" 0 "[1]" 0]
  have a: "sendFrames (length ?F) 0 ?F 0 0 ?t =
        (?t\<lparr>written := written ?t @
            map (\<lambda>k. frame_packet 97 (length ?F) k (?F ! k)) [0..<length ?F]\<rparr>, None)"
    using T1 h by blast
  have b: "sendFrames_v2 (length ?F) 0 ?F 0 0 ?t =
        (?t\<lparr>written := written ?t @
            map (\<lambda>k. frame_packet 96 (length ?F) k (?F ! k)) [0..<length ?F]\<rparr>, None)"
    using T1 h ne by blast
  have c: "SequenceNumber (Header (frame_packet 97 2 0 [1])) <
           SequenceNumber (Header (frame_packet 97 2 1 [2, 3]))"
  proof -
    from T1 have "(0 :: nat) < 1 \<and> (1 :: nat) < 65536 \<longrightarrow>
        SequenceNumber (Header (frame_packet 97 2 0 [1])) <
        SequenceNumber (Header (frame_packet 97 2 1 [2, 3]))"
      by blast
    then show ?thesis by simp
  qed
  have d: "Marker (Header (frame_packet 97 2 1 [2, 3]))"
  proof -
    from T2 have "(1 :: nat) < 2 \<longrightarrow>
        Marker (Header (frame_packet 97 2 1 [2, 3])) = ((1 :: nat) = 2 - 1)"
      by blast
    then show ?thesis by simp
  qed
  have e: "\<not> Marker (Header (frame_packet 97 2 0 [1]))"
  proof -
    from T3 have "(0 :: nat) < 2 \<longrightarrow>
        Marker (Header (frame_packet 97 2 0 [1])) = ((0 :: nat) = 2 - 1)"
      by blast
    then show ?thesis by simp
  qed
  have a': "sendFrames 2 0 ?F 0 0 ?t =
        (\<lparr>written = [frame_packet 97 2 0 [1], frame_packet 97 2 1 [2, 3]],
          wfail = (\<lambda>k. False)\<rparr>, None)"
    using a unfolding len u by (simp only: list.map n0 n1 append_Nil Track.simps Track.update_convs)
  have b': "sendFrames_v2 2 0 ?F 0 0 ?t =
        (\<lparr>written = [frame_packet 96 2 0 [1], frame_packet 96 2 1 [2, 3]],
          wfail = (\<lambda>k. False)\<rparr>, None)"
    using b unfolding len u by (simp only: list.map n0 n1 append_Nil Track.simps Track.update_convs)
  from a' b' c d e show ?thesis by blast
qed

theorem sendAudioToTrack_packet_headers_counterexample:
  "(let sent = written (fst (sendFrames 65537 0 (replicate 65537 [0xFC]) 0 0
                              \<lparr>written = [], wfail = (\<lambda>k. False)\<rparr>))
    in length sent = 65537 \<and>
       SequenceNumber (Header (sent ! 65535)) = 65535 \<and>
       SequenceNumber (Header (sent ! 65536)) = 0)"
proof -
  have "sendFrames (length (replicate 65537 [0xFC :: byte])) 0 (replicate 65537 [0xFC]) 0 0
          \<lparr>written = [], wfail = (\<lambda>k. False)\<rparr> =
        (\<lparr>written = [] @ map (\<lambda>k. frame_packet 97 (length (replicate 65537 [0xFC :: byte])) (0 + k)
                                  (replicate 65537 [0xFC] ! k))
                          [0..<length (replicate 65537 [0xFC :: byte])],
          wfail = (\<lambda>k. False)\<rparr>, None)"
    using sendFrames_written
            [of "replicate 65537 [0xFC]" "\<lparr>written = [], wfail = (\<lambda>k. False)\<rparr>"
                "length (replicate 65537 [0xFC :: byte])" 0]
    by simp
  then show ?thesis
    by (simp add: Let_def frame_packet_def del: upt.simps replicate.simps)
qed

end
